theory Spec2Isabelle
  imports Complex_Main
begin

section \<open>Python exceptions as values\<close>

text \<open>
  Every \<^verbatim>\<open>raise\<close> of the modelled methods, and every exception the interpreter or
  numpy raises on the way, is a value of this type. A mutator of a wavepacket returns
  \<open>Inl (e, s')\<close> when it raises \<open>e\<close>, where \<open>s'\<close> is the object as the exception
  leaves it (Python does not roll back the assignments made before the raise), and
  \<open>Inr s'\<close> when it returns.
\<close>

datatype error =
    ValueError | IndexError | KeyError | TypeError | UnboundLocalError
  | ZeroDivisionError | LinAlgError

fun map_err :: "('a \<Rightarrow> error + 'b) \<Rightarrow> 'a list \<Rightarrow> error + 'b list" where
  "map_err f [] = Inr []"
| "map_err f (x # xs) =
     (case f x of
        Inl e \<Rightarrow> Inl e
      | Inr y \<Rightarrow> (case map_err f xs of Inl e \<Rightarrow> Inl e | Inr ys \<Rightarrow> Inr (y # ys)))"

section \<open>Basis shapes\<close>

text \<open>
  Modelled from the spec: the class \<^verbatim>\<open>BasisShape\<close> is not among the source files. The
  spec (section 3) describes it as a finite set of D-dimensional non-negative
  multi-indices with a bijective mapping to the linear indices \<open>0..K-1\<close>, of which the
  wavepacket code uses the membership test (\<^verbatim>\<open>k in bs\<close>), the iteration in a stable order
  (\<^verbatim>\<open>for k in bs\<close>), the linear-index lookup (\<^verbatim>\<open>bs[k]\<close>) and the basis size
  (\<^verbatim>\<open>bs.get_basissize()\<close>). The record keeps the multi-indices in iteration order and the
  linear mapping as a partial function; \<open>wf_shape\<close> is the spec's invariant.
\<close>

type_synonym multiindex = "nat list"

record BasisShape =
  bs_indices :: "multiindex list"
  bs_lima :: "multiindex \<Rightarrow> nat option"

definition get_basissize :: "BasisShape \<Rightarrow> nat" where
  "get_basissize bs = length (bs_indices bs)"

definition contains :: "BasisShape \<Rightarrow> multiindex \<Rightarrow> bool" where
  "contains bs k = (k \<in> set (bs_indices bs))"

definition getitem :: "BasisShape \<Rightarrow> multiindex \<Rightarrow> error + nat" where
  "getitem bs k = (case bs_lima bs k of None \<Rightarrow> Inl KeyError | Some j \<Rightarrow> Inr j)"

definition wf_shape :: "BasisShape \<Rightarrow> bool" where
  "wf_shape bs =
     (distinct (bs_indices bs) \<and>
      (\<forall>k \<in> set (bs_indices bs). \<exists>j < get_basissize bs. bs_lima bs k = Some j) \<and>
      inj_on (bs_lima bs) (set (bs_indices bs)))"

text \<open>The linear index of a multi-index of the shape.\<close>

definition lin :: "BasisShape \<Rightarrow> multiindex \<Rightarrow> nat" where
  "lin bs k = the (bs_lima bs k)"

section \<open>The coefficient store of a wavepacket\<close>

text \<open>
  The attributes of \<^verbatim>\<open>HagedornWavepacketBase\<close> that its methods read and write. A
  coefficient vector is an ndarray of shape \<open>(K, 1)\<close>, kept as the list of its \<open>K\<close>
  entries.
\<close>

record HagedornWavepacketBase =
  dimension :: nat
  eps :: real
  number_components :: nat
  basis_shapes :: "BasisShape list"
  basis_sizes :: "nat list"
  coefficients :: "complex list list"

type_synonym 'a raises = "(error \<times> HagedornWavepacketBase) + 'a"

subsection \<open>numpy's integer-array indexing on a column vector\<close>

text \<open>
  The index arrays are built by \<^verbatim>\<open>array([...])\<close> from a list of linear indices. From
  a non-empty list this is an array of integers; from the empty list it is an array of
  dtype float64, and numpy refuses an array of floats as an index: both \<^verbatim>\<open>c[i]\<close> and
  \<^verbatim>\<open>c[j] = vals\<close> raise \<^verbatim>\<open>IndexError\<close> then.

  \<^verbatim>\<open>c[i]\<close> for an index array \<open>i\<close> of integers: the selected rows; an index out of range
  raises.
\<close>

definition take_rows :: "complex list \<Rightarrow> nat list \<Rightarrow> error + complex list" where
  "take_rows c i =
     (if i = [] then Inl IndexError
      else map_err (\<lambda>n. if n < length c then Inr (c ! n) else Inl IndexError) i)"

text \<open>\<^verbatim>\<open>c[j] = vals\<close> for an index array \<open>j\<close> of integers: the assignments in order.\<close>

fun assign_rows :: "complex list \<Rightarrow> nat list \<Rightarrow> complex list \<Rightarrow> error + complex list" where
  "assign_rows c [] [] = Inr c"
| "assign_rows c (n # j) (v # vals) =
     (if n < length c then assign_rows (c[n := v]) j vals else Inl IndexError)"
| "assign_rows c _ _ = Inl ValueError"

definition put_rows :: "complex list \<Rightarrow> nat list \<Rightarrow> complex list \<Rightarrow> error + complex list" where
  "put_rows c j vals = (if j = [] then Inl IndexError else assign_rows c j vals)"

subsection \<open>\<^verbatim>\<open>_resize_coefficient_storage\<close>\<close>

definition insec :: "BasisShape \<Rightarrow> BasisShape \<Rightarrow> error + multiindex list" where
  "insec bs_old bs_new =
     (let bso = get_basissize bs_old; bsn = get_basissize bs_new in
      if bso \<le> bsn then Inr (filter (contains bs_new) (bs_indices bs_old))
      else if bso > bsn then Inr (filter (contains bs_old) (bs_indices bs_new))
      else Inl UnboundLocalError)"

definition resize_coefficient_storage ::
    "nat \<Rightarrow> BasisShape \<Rightarrow> BasisShape \<Rightarrow> HagedornWavepacketBase \<Rightarrow> error + HagedornWavepacketBase" where
  "resize_coefficient_storage component bs_old bs_new s =
     (let bsn = get_basissize bs_new in
      (case insec bs_old bs_new of Inl e \<Rightarrow> Inl e | Inr ks \<Rightarrow>
      (case map_err (getitem bs_old) ks of Inl e \<Rightarrow> Inl e | Inr i \<Rightarrow>
      (case map_err (getitem bs_new) ks of Inl e \<Rightarrow> Inl e | Inr j \<Rightarrow>
      (if length (coefficients s) \<le> component then Inl IndexError else
      (case take_rows (coefficients s ! component) i of Inl e \<Rightarrow> Inl e | Inr vals \<Rightarrow>
      (case put_rows (replicate bsn 0) j vals of Inl e \<Rightarrow> Inl e | Inr cnew \<Rightarrow>
      Inr (s\<lparr>coefficients := (coefficients s)[component := cnew]\<rparr>))))))))"

subsection \<open>\<^verbatim>\<open>set_basis_shape\<close>\<close>

text \<open>
  The argument \<^verbatim>\<open>basis_shape\<close> is one shape when a component is given (\<open>Inl\<close>) and a
  list of shapes when \<^verbatim>\<open>component\<close> is \<^verbatim>\<open>None\<close> (\<open>Inr\<close>); the other two combinations
  are calls outside the documented signature and fail on the first attribute they miss.
\<close>

definition update_caches :: "HagedornWavepacketBase \<Rightarrow> HagedornWavepacketBase" where
  "update_caches s = s\<lparr>basis_sizes := map get_basissize (basis_shapes s)\<rparr>"

definition set_one_shape ::
    "nat \<Rightarrow> BasisShape \<Rightarrow> HagedornWavepacketBase \<Rightarrow> HagedornWavepacketBase raises" where
  "set_one_shape index bsnew s =
     (if length (basis_shapes s) \<le> index then Inl (IndexError, s) else
      case resize_coefficient_storage index (basis_shapes s ! index) bsnew s of
        Inl e \<Rightarrow> Inl (e, s)
      | Inr s' \<Rightarrow> Inr (s'\<lparr>basis_shapes := (basis_shapes s')[index := bsnew]\<rparr>))"

fun set_shapes_loop ::
    "nat \<Rightarrow> BasisShape list \<Rightarrow> HagedornWavepacketBase \<Rightarrow> HagedornWavepacketBase raises" where
  "set_shapes_loop index [] s = Inr s"
| "set_shapes_loop index (bsnew # rest) s =
     (case set_one_shape index bsnew s of
        Inl es \<Rightarrow> Inl es
      | Inr s' \<Rightarrow> set_shapes_loop (Suc index) rest s')"

definition set_basis_shape ::
    "BasisShape + BasisShape list \<Rightarrow> int option \<Rightarrow> HagedornWavepacketBase
       \<Rightarrow> HagedornWavepacketBase raises" where
  "set_basis_shape basis_shape component s =
     (case (component, basis_shape) of
        (Some c, Inl bsnew) \<Rightarrow>
          if \<not> (0 \<le> c \<and> c < int (number_components s)) then Inl (ValueError, s)
          else (case set_one_shape (nat c) bsnew s of
                  Inl es \<Rightarrow> Inl es
                | Inr s' \<Rightarrow> Inr (update_caches s'))
      | (None, Inr shapes) \<Rightarrow>
          if \<not> (length shapes = number_components s) then Inl (ValueError, s)
          else (case set_shapes_loop 0 shapes s of
                  Inl es \<Rightarrow> Inl es
                | Inr s' \<Rightarrow> Inr (update_caches s'))
      | _ \<Rightarrow> Inl (TypeError, s))"

subsection \<open>\<^verbatim>\<open>set_coefficients\<close>\<close>

text \<open>
  \<^verbatim>\<open>values\<close> is a sequence of arrays, each kept as the list of its entries in row-major
  order. \<^verbatim>\<open>value.copy().reshape((bs,1))\<close> raises \<^verbatim>\<open>ValueError\<close> unless the array has
  \<open>bs\<close> entries. In the branch for one component the method body reads the name
  \<^verbatim>\<open>value\<close>, which is the loop variable of the other branch and unbound there: the
  parameter is called \<^verbatim>\<open>values\<close>.
\<close>

fun set_coefficients_loop ::
    "nat \<Rightarrow> complex list list \<Rightarrow> HagedornWavepacketBase \<Rightarrow> HagedornWavepacketBase raises" where
  "set_coefficients_loop index [] s = Inr s"
| "set_coefficients_loop index (val # rest) s =
     (if length (basis_sizes s) \<le> index then Inl (IndexError, s)
      else if length val \<noteq> basis_sizes s ! index then Inl (ValueError, s)
      else if length (coefficients s) \<le> index then Inl (IndexError, s)
      else set_coefficients_loop (Suc index) rest
             (s\<lparr>coefficients := (coefficients s)[index := val]\<rparr>))"

definition set_coefficients ::
    "complex list list \<Rightarrow> int option \<Rightarrow> HagedornWavepacketBase
       \<Rightarrow> HagedornWavepacketBase raises" where
  "set_coefficients values component s =
     (case component of
        None \<Rightarrow>
          if length values \<noteq> number_components s then Inl (ValueError, s)
          else set_coefficients_loop 0 values s
      | Some c \<Rightarrow>
          if c > int (number_components s) - 1 \<or> c < 0 then Inl (ValueError, s)
          else if length (basis_sizes s) \<le> nat c then Inl (IndexError, s)
          else Inl (UnboundLocalError, s))"

subsection \<open>\<^verbatim>\<open>get_coefficient_vector\<close> and \<^verbatim>\<open>set_coefficient_vector\<close>\<close>

text \<open>
  numpy's \<^verbatim>\<open>cumsum\<close>, the slice \<^verbatim>\<open>v[st:en]\<close>, \<^verbatim>\<open>vsplit\<close> at a list of indices
  (\<^verbatim>\<open>array_split\<close>: the division points are \<open>0\<close>, the indices and the number of rows, and
  piece \<open>i\<close> is the slice between division points \<open>i\<close> and \<open>i+1\<close>) and \<^verbatim>\<open>vstack\<close> of
  column vectors, which raises on an empty sequence.
\<close>

fun cumsum_from :: "nat \<Rightarrow> nat list \<Rightarrow> nat list" where
  "cumsum_from acc [] = []"
| "cumsum_from acc (x # xs) = (acc + x) # cumsum_from (acc + x) xs"

definition cumsum :: "nat list \<Rightarrow> nat list" where
  "cumsum xs = cumsum_from 0 xs"

definition slice :: "nat \<Rightarrow> nat \<Rightarrow> 'a list \<Rightarrow> 'a list" where
  "slice st en v = take (en - st) (drop st v)"

fun sub_arys :: "'a list \<Rightarrow> nat list \<Rightarrow> 'a list list" where
  "sub_arys v (st # en # div_points) = slice st en v # sub_arys v (en # div_points)"
| "sub_arys v _ = []"

definition vsplit :: "'a list \<Rightarrow> nat list \<Rightarrow> 'a list list" where
  "vsplit v indices = sub_arys v (0 # indices @ [length v])"

definition vstack :: "'a list list \<Rightarrow> error + 'a list" where
  "vstack arrays = (if arrays = [] then Inl ValueError else Inr (concat arrays))"

definition get_coefficient_vector :: "HagedornWavepacketBase \<Rightarrow> error + complex list" where
  "get_coefficient_vector s = vstack (coefficients s)"

definition set_coefficient_vector ::
    "complex list \<Rightarrow> HagedornWavepacketBase \<Rightarrow> HagedornWavepacketBase" where
  "set_coefficient_vector vector s =
     (let partition = butlast (cumsum (basis_sizes s))
      in s\<lparr>coefficients := vsplit vector partition\<rparr>)"

subsection \<open>Well-formed stores\<close>

definition wf_store :: "HagedornWavepacketBase \<Rightarrow> bool" where
  "wf_store s =
     (length (basis_shapes s) = number_components s \<and>
      length (coefficients s) = number_components s \<and>
      basis_sizes s = map get_basissize (basis_shapes s) \<and>
      map length (coefficients s) = basis_sizes s)"

section \<open>Floating-point values\<close>

text \<open>
  Arithmetic on floating-point numbers is taken as exact arithmetic on the reals (and on
  the complex numbers), with one exception: numpy's division of an array by an array
  does not raise where the divisor is zero, it yields \<^verbatim>\<open>inf\<close> or \<^verbatim>\<open>nan\<close>. A value a
  division produced is therefore a real number or \<open>None\<close>, which stands for \<^verbatim>\<open>inf\<close> and
  \<^verbatim>\<open>nan\<close>; a product with such a value is such a value again.
\<close>

type_synonym float = "real option"

definition fdiv :: "real \<Rightarrow> real \<Rightarrow> float" where
  "fdiv x y = (if y = 0 then None else Some (x / y))"

definition fmul :: "float \<Rightarrow> float \<Rightarrow> float" where
  "fmul x y = (case (x, y) of (Some u, Some v) \<Rightarrow> Some (u * v) | _ \<Rightarrow> None)"

section \<open>One-dimensional quadrature rules\<close>

text \<open>
  \<^verbatim>\<open>h_roots\<close> and \<^verbatim>\<open>la_roots\<close> are functions of scipy, not of this package: the
  constructors take them as parameters. A root finder returns the arrays of the nodes
  (of complex dtype) and of the raw weights, or raises. The options are a dictionary of
  primitive values.
\<close>

type_synonym options = "(string \<times> string) list"

type_synonym roots = "complex list \<times> complex list"

record GaussHermiteQR =
  gh_dimension :: nat
  gh_order :: int
  gh_options :: options
  gh_number_nodes :: nat
  gh_nodes :: "complex list"
  gh_weights :: "float list"

record GaussLaguerreQR =
  gl_dimension :: nat
  gl_order :: int
  gl_a :: real
  gl_options :: options
  gl_number_nodes :: nat
  gl_nodes :: "complex list"
  gl_weights :: "float list"

subsection \<open>The rows of the Hermite recursion\<close>

definition hermite_row0 :: "real list \<Rightarrow> real list" where
  "hermite_row0 nodes = map (\<lambda>x. pi powr (- 0.25) * exp (- 0.5 * x\<^sup>2)) nodes"

definition hermite_row1 :: "real list \<Rightarrow> real list list \<Rightarrow> real list" where
  "hermite_row1 nodes H = map (\<lambda>i. sqrt 2 * (nodes ! i) * (H ! 0 ! i)) [0..<length nodes]"

definition hermite_row :: "nat \<Rightarrow> real list \<Rightarrow> real list list \<Rightarrow> real list" where
  "hermite_row k nodes H =
     map (\<lambda>i. sqrt (2 / real k) * (nodes ! i) * (H ! (k - 1) ! i)
              - sqrt ((real k - 1) / real k) * (H ! (k - 2) ! i)) [0..<length nodes]"

text \<open>
  \<^verbatim>\<open>_hermite_recursion\<close> of \<^verbatim>\<open>GaussHermiteQR\<close>: an array of \<open>order\<close> rows.
  \<^verbatim>\<open>zeros\<close> raises on a negative number of rows, and the assignment to row 0 raises when
  there is no row.
\<close>

definition gh_hermite_recursion :: "int \<Rightarrow> real list \<Rightarrow> error + real list list" where
  "gh_hermite_recursion order nodes =
     (if order < 0 then Inl ValueError
      else if order = 0 then Inl IndexError
      else
        let H = replicate (nat order) (replicate (length nodes) 0);
            H = H[0 := hermite_row0 nodes]
        in if order > 1
           then let H = H[1 := hermite_row1 nodes H]
                in Inr (fold (\<lambda>k H. H[k := hermite_row k nodes H]) [2..<nat order] H)
           else Inr H)"

text \<open>
  \<^verbatim>\<open>_hermite_recursion\<close> of \<^verbatim>\<open>GaussLaguerreQR\<close>: an array of \<open>2 * order\<close> rows, filled
  under the same guard \<^verbatim>\<open>if self._order > 1\<close>.
\<close>

definition gl_hermite_recursion :: "int \<Rightarrow> real list \<Rightarrow> error + real list list" where
  "gl_hermite_recursion order nodes =
     (if order < 0 then Inl ValueError
      else if order = 0 then Inl IndexError
      else
        let H = replicate (nat (2 * order)) (replicate (length nodes) 0);
            H = H[0 := hermite_row0 nodes]
        in if order > 1
           then let H = H[1 := hermite_row1 nodes H]
                in Inr (fold (\<lambda>k H. H[k := hermite_row k nodes H]) [2..<nat (2 * order)] H)
           else Inr H)"

subsection \<open>The constructors\<close>

definition GaussHermiteQR_init ::
    "(int \<Rightarrow> error + roots) \<Rightarrow> int \<Rightarrow> options \<Rightarrow> error + GaussHermiteQR" where
  "GaussHermiteQR_init h_roots order opts =
     (if \<not> order > 0 then Inl ValueError
      else (case h_roots order of
              Inl e \<Rightarrow> Inl e
            | Inr (nodes, raw_weights) \<Rightarrow>
                (case gh_hermite_recursion order (map Re nodes) of
                   Inl e \<Rightarrow> Inl e
                 | Inr H \<Rightarrow>
                     let h = last H;
                         weights = map (\<lambda>hi. fdiv 1.0 (hi\<^sup>2 * real_of_int order)) h
                     in Inr \<lparr>gh_dimension = 1, gh_order = order, gh_options = opts,
                             gh_number_nodes = length nodes, gh_nodes = nodes,
                             gh_weights = weights\<rparr>)))"

text \<open>
  The weights of \<^verbatim>\<open>GaussLaguerreQR\<close>: the factor in front is a quotient of Python
  scalars, whose divisor \<open>order\<^sup>2 - order/2\<close> is positive for every order the guard lets
  through; the division by \<open>h[2*order-2,:] * h[2*order-1,:]\<close> is the division of arrays.
\<close>

definition gl_weight :: "int \<Rightarrow> complex \<Rightarrow> real \<Rightarrow> real \<Rightarrow> float" where
  "gl_weight order node h1 h2 =
     (if h1 * h2 = 0 then None
      else Some (Re (complex_of_real
                       (sqrt (2.0 * real_of_int order - 1.0)
                          / (sqrt 2.0 * ((real_of_int order)\<^sup>2 - real_of_int order / 2.0)))
                     * csqrt node / complex_of_real (h1 * h2))))"

definition GaussLaguerreQR_init ::
    "(int \<Rightarrow> real \<Rightarrow> error + roots) \<Rightarrow> int \<Rightarrow> real \<Rightarrow> options \<Rightarrow> error + GaussLaguerreQR" where
  "GaussLaguerreQR_init la_roots order a opts =
     (if \<not> order > 0 then Inl ValueError
      else (case la_roots order a of
              Inl e \<Rightarrow> Inl e
            | Inr (nodes, raw_weights) \<Rightarrow>
                (case gl_hermite_recursion order (map (\<lambda>z. Re (csqrt z)) nodes) of
                   Inl e \<Rightarrow> Inl e
                 | Inr h \<Rightarrow>
                     let weights = map (\<lambda>i. gl_weight order (nodes ! i)
                                               (h ! nat (2 * order - 2) ! i)
                                               (h ! nat (2 * order - 1) ! i))
                                       [0..<length nodes]
                     in Inr \<lparr>gl_dimension = 1, gl_order = order, gl_a = a, gl_options = opts,
                             gl_number_nodes = length nodes,
                             gl_nodes = map (\<lambda>z. complex_of_real (Re z)) nodes,
                             gl_weights = weights\<rparr>)))"

text \<open>
  The Hermite functions as the spec defines them (section 4.1): \<open>H[0] = \<pi>^(-1/4) exp(-x\<^sup>2/2)\<close>,
  \<open>H[1] = \<surd>2 x H[0]\<close> and \<open>H[k] = \<surd>(2/k) x H[k-1] - \<surd>((k-1)/k) H[k-2]\<close> for \<open>k \<ge> 2\<close>.
\<close>

fun hermite_function :: "nat \<Rightarrow> real \<Rightarrow> real" where
  "hermite_function 0 x = pi powr (- 1 / 4) * exp (- (x\<^sup>2) / 2)"
| "hermite_function (Suc 0) x = sqrt 2 * x * hermite_function 0 x"
| "hermite_function (Suc (Suc k)) x =
     sqrt (2 / real (Suc (Suc k))) * x * hermite_function (Suc k) x
       - sqrt (real (Suc k) / real (Suc (Suc k))) * hermite_function k x"

section \<open>Tensor products of one-dimensional quadrature rules\<close>

text \<open>
  The constituents of a tensor product are the one-dimensional rules of the package,
  read through the methods of the \<^verbatim>\<open>QuadratureRule\<close> interface. \<^verbatim>\<open>get_nodes\<close> and
  \<^verbatim>\<open>get_weights\<close> of a one-dimensional rule return arrays of shape \<open>(1, N)\<close>, kept as
  the list of the \<open>N\<close> entries.
\<close>

datatype QuadratureRule = GH GaussHermiteQR | GL GaussLaguerreQR

fun get_number_nodes :: "QuadratureRule \<Rightarrow> nat" where
  "get_number_nodes (GH r) = gh_number_nodes r"
| "get_number_nodes (GL r) = gl_number_nodes r"

fun get_nodes :: "QuadratureRule \<Rightarrow> complex list" where
  "get_nodes (GH r) = gh_nodes r"
| "get_nodes (GL r) = gl_nodes r"

fun get_weights :: "QuadratureRule \<Rightarrow> float list" where
  "get_weights (GH r) = gh_weights r"
| "get_weights (GL r) = gl_weights r"

subsection \<open>Arrays of several dimensions\<close>

text \<open>
  An ndarray is its shape and its entries in row-major order, the order in which
  \<^verbatim>\<open>flatten()\<close> returns them. \<open>ndindex shape\<close> lists the multi-indices of the shape in
  that order: the last index varies fastest.
\<close>

record 'a ndarray =
  nd_shape :: "nat list"
  nd_data :: "'a list"

fun ndindex :: "nat list \<Rightarrow> nat list list" where
  "ndindex [] = [[]]"
| "ndindex (n # ns) = concat (map (\<lambda>i. map ((#) i) (ndindex ns)) [0..<n])"

definition flatten :: "'a ndarray \<Rightarrow> 'a list" where
  "flatten x = nd_data x"

text \<open>
  Modelled from the spec: \<^verbatim>\<open>meshgrid_nd\<close> of \<^verbatim>\<open>Utils\<close> is not among the source files.
  The spec (section 4.4) has it build, from the one-dimensional arrays of the
  constituents, the D-dimensional outer grid of every combination of one entry from each
  constituent, in row-major order of the constituent indices: grid \<open>d\<close> holds at the
  multi-index \<open>(i\<^sub>1, ..., i\<^sub>D)\<close> the entry \<open>i\<^sub>d\<close> of array \<open>d\<close>.
\<close>

definition meshgrid_nd :: "'a list list \<Rightarrow> 'a ndarray list" where
  "meshgrid_nd arrays =
     map (\<lambda>d. \<lparr>nd_shape = map length arrays,
                nd_data = map (\<lambda>mi. arrays ! d ! (mi ! d)) (ndindex (map length arrays))\<rparr>)
         [0..<length arrays]"

text \<open>The product \<^verbatim>\<open>x*y\<close> of two arrays of one shape, entry by entry.\<close>

definition nd_mul :: "float ndarray \<Rightarrow> float ndarray \<Rightarrow> error + float ndarray" where
  "nd_mul x y =
     (if nd_shape x = nd_shape y
      then Inr \<lparr>nd_shape = nd_shape x, nd_data = map2 fmul (nd_data x) (nd_data y)\<rparr>
      else Inl ValueError)"

text \<open>
  Python's \<^verbatim>\<open>reduce(f, xs)\<close> without an initial value: the fold from the left that
  starts at the first element, and \<^verbatim>\<open>TypeError\<close> on an empty sequence.
\<close>

fun foldl_err :: "('a \<Rightarrow> 'a \<Rightarrow> error + 'a) \<Rightarrow> 'a \<Rightarrow> 'a list \<Rightarrow> error + 'a" where
  "foldl_err f acc [] = Inr acc"
| "foldl_err f acc (y # ys) = (case f acc y of Inl e \<Rightarrow> Inl e | Inr z \<Rightarrow> foldl_err f z ys)"

fun reduce :: "('a \<Rightarrow> 'a \<Rightarrow> error + 'a) \<Rightarrow> 'a list \<Rightarrow> error + 'a" where
  "reduce f [] = Inl TypeError"
| "reduce f (x # xs) = foldl_err f x xs"

subsection \<open>\<^verbatim>\<open>TensorProductQR\<close>\<close>

record TensorProductQR =
  tp_dimension :: nat
  tp_qrs :: "QuadratureRule list"
  tp_order :: "int option"
  tp_options :: options
  tp_number_nodes :: nat
  tp_nodes :: "complex list list"
  tp_weights :: "float list"

text \<open>
  \<^verbatim>\<open>vstack\<close> of one-dimensional arrays: the rows of a two-dimensional array. It raises on
  an empty sequence and on rows of different lengths.
\<close>

definition vstack_rows :: "'a list list \<Rightarrow> error + 'a list list" where
  "vstack_rows arrays =
     (if arrays = [] then Inl ValueError
      else if list_all (\<lambda>a. length a = length (hd arrays)) arrays then Inr arrays
      else Inl ValueError)"

definition tensor_product ::
    "QuadratureRule list \<Rightarrow> error + (complex list list \<times> float list)" where
  "tensor_product rules =
     (let nodes = meshgrid_nd (map get_nodes rules) in
      (case vstack_rows (map flatten nodes) of
         Inl e \<Rightarrow> Inl e
       | Inr nodes \<Rightarrow>
           let weights = meshgrid_nd (map get_weights rules)
           in (case reduce nd_mul weights of
                 Inl e \<Rightarrow> Inl e
               | Inr weights \<Rightarrow> Inr (nodes, flatten weights))))"

definition TensorProductQR_init ::
    "QuadratureRule list \<Rightarrow> options \<Rightarrow> error + TensorProductQR" where
  "TensorProductQR_init rules opts =
     (case reduce (\<lambda>x y. Inr (x * y)) (map get_number_nodes rules) of
        Inl e \<Rightarrow> Inl e
      | Inr number_nodes \<Rightarrow>
          (case tensor_product rules of
             Inl e \<Rightarrow> Inl e
           | Inr (nodes, weights) \<Rightarrow>
               Inr \<lparr>tp_dimension = length rules, tp_qrs = rules, tp_order = None,
                    tp_options = opts, tp_number_nodes = number_nodes,
                    tp_nodes = nodes, tp_weights = weights\<rparr>))"

text \<open>
  A constituent whose arrays have the length it reports, and the product of a list of
  weights.
\<close>

definition wf_rule :: "QuadratureRule \<Rightarrow> bool" where
  "wf_rule r = (length (get_nodes r) = get_number_nodes r \<and>
                length (get_weights r) = get_number_nodes r)"

definition fprod :: "float list \<Rightarrow> float" where
  "fprod ws = foldr fmul ws (Some 1)"

section \<open>Descriptions of quadrature rules\<close>

text \<open>
  A description is the dictionary \<^verbatim>\<open>get_description\<close> returns: the type tag is the
  constructor, the other keys are its arguments (\<^verbatim>\<open>dimension\<close>, \<^verbatim>\<open>order\<close>, for the
  Laguerre rule \<^verbatim>\<open>a\<close>, and \<^verbatim>\<open>options\<close>). The description of a tensor product holds the
  descriptions of its constituents under \<^verbatim>\<open>qr_rules\<close>.
\<close>

datatype description =
    GaussHermiteQR_description nat int options
  | GaussLaguerreQR_description nat int real options

record TensorProductQR_description =
  tpd_dimension :: nat
  tpd_qr_rules :: "description list"
  tpd_options :: options

definition gh_get_description :: "GaussHermiteQR \<Rightarrow> description" where
  "gh_get_description r = GaussHermiteQR_description (gh_dimension r) (gh_order r) (gh_options r)"

definition gl_get_description :: "GaussLaguerreQR \<Rightarrow> description" where
  "gl_get_description r =
     GaussLaguerreQR_description (gl_dimension r) (gl_order r) (gl_a r) (gl_options r)"

fun get_description :: "QuadratureRule \<Rightarrow> description" where
  "get_description (GH r) = gh_get_description r"
| "get_description (GL r) = gl_get_description r"

definition tp_get_description :: "TensorProductQR \<Rightarrow> TensorProductQR_description" where
  "tp_get_description tp =
     \<lparr>tpd_dimension = tp_dimension tp,
      tpd_qr_rules = map get_description (tp_qrs tp),
      tpd_options = tp_options tp\<rparr>"

text \<open>
  Modelled from the spec: the code that builds a rule from a description is not among
  the source files. The spec (sections 4.2 to 4.4 and 8) has it construct a rule of the
  same type with the same order, \<open>a\<close> and options, and for a tensor product reconstruct
  each constituent from its description under \<^verbatim>\<open>qr_rules\<close> and compose them again.
\<close>

fun create_rule ::
    "(int \<Rightarrow> error + roots) \<Rightarrow> (int \<Rightarrow> real \<Rightarrow> error + roots) \<Rightarrow> description
       \<Rightarrow> error + QuadratureRule" where
  "create_rule h_roots la_roots (GaussHermiteQR_description ndim order opts) =
     (case GaussHermiteQR_init h_roots order opts of Inl e \<Rightarrow> Inl e | Inr r \<Rightarrow> Inr (GH r))"
| "create_rule h_roots la_roots (GaussLaguerreQR_description ndim order a opts) =
     (case GaussLaguerreQR_init la_roots order a opts of Inl e \<Rightarrow> Inl e | Inr r \<Rightarrow> Inr (GL r))"

definition create_tensor_product ::
    "(int \<Rightarrow> error + roots) \<Rightarrow> (int \<Rightarrow> real \<Rightarrow> error + roots) \<Rightarrow> TensorProductQR_description
       \<Rightarrow> error + TensorProductQR" where
  "create_tensor_product h_roots la_roots d =
     (case map_err (create_rule h_roots la_roots) (tpd_qr_rules d) of
        Inl e \<Rightarrow> Inl e
      | Inr rules \<Rightarrow> TensorProductQR_init rules (tpd_options d))"

text \<open>A rule object that a constructor of the package returned.\<close>

fun constructed ::
    "(int \<Rightarrow> error + roots) \<Rightarrow> (int \<Rightarrow> real \<Rightarrow> error + roots) \<Rightarrow> QuadratureRule \<Rightarrow> bool" where
  "constructed h_roots la_roots (GH r) =
     (GaussHermiteQR_init h_roots (gh_order r) (gh_options r) = Inr r)"
| "constructed h_roots la_roots (GL r) =
     (GaussLaguerreQR_init la_roots (gl_order r) (gl_a r) (gl_options r) = Inr r)"

section \<open>The ground state \<open>\<phi>\<^sub>0\<close>\<close>

text \<open>
  A two-dimensional ndarray is the list of its rows. The arrays have the shapes of the
  docstring and of the spec: the nodes \<open>(D, N)\<close>, \<open>q\<close> and \<open>p\<close> the columns \<open>(D, 1)\<close>, kept
  as the lists of their \<open>D\<close> entries, and \<open>Q\<close> and \<open>P\<close> \<open>(D, D)\<close>. On operands whose
  shapes do not fit numpy raises \<^verbatim>\<open>ValueError\<close>; shapes that fit by broadcasting without
  being the documented ones are not modelled.
\<close>

type_synonym cmatrix = "complex list list"

definition has_shape :: "nat \<Rightarrow> nat \<Rightarrow> cmatrix \<Rightarrow> bool" where
  "has_shape r c A = (length A = r \<and> list_all (\<lambda>row. length row = c) A)"

text \<open>\<^verbatim>\<open>A - q\<close> and \<^verbatim>\<open>p * A\<close> for a column \<open>q\<close> or \<open>p\<close>: the column is broadcast along the rows.\<close>

definition sub_column :: "cmatrix \<Rightarrow> complex list \<Rightarrow> cmatrix" where
  "sub_column A q = map2 (\<lambda>row qd. map (\<lambda>x. x - qd) row) A q"

definition mul_column :: "complex list \<Rightarrow> cmatrix \<Rightarrow> cmatrix" where
  "mul_column p A = map2 (\<lambda>pd row. map (\<lambda>x. pd * x) row) p A"

text \<open>\<^verbatim>\<open>A * B\<close> on ndarrays of one shape: the product entry by entry.\<close>

definition mul_elementwise :: "cmatrix \<Rightarrow> cmatrix \<Rightarrow> cmatrix" where
  "mul_elementwise A B = map2 (\<lambda>ra rb. map2 (*) ra rb) A B"

text \<open>\<^verbatim>\<open>dot(A, B)\<close>: the matrix product.\<close>

definition dot :: "cmatrix \<Rightarrow> cmatrix \<Rightarrow> cmatrix" where
  "dot A B =
     map (\<lambda>row. map (\<lambda>n. \<Sum>k \<leftarrow> [0..<length row]. row ! k * (B ! k ! n))
                    [0..<length (hd B)]) A"

text \<open>\<^verbatim>\<open>sum(A, axis=0)\<close>: the sums of the columns.\<close>

definition sum_axis0 :: "cmatrix \<Rightarrow> complex list" where
  "sum_axis0 A = map (\<lambda>n. \<Sum>row \<leftarrow> A. row ! n) [0..<length (hd A)]"

subsection \<open>\<^verbatim>\<open>numpy.linalg.det\<close> and \<^verbatim>\<open>numpy.linalg.inv\<close>\<close>

text \<open>
  The determinant by the expansion along the first row, and the inverse as the adjugate
  divided by the determinant; \<^verbatim>\<open>inv\<close> raises \<^verbatim>\<open>LinAlgError\<close> on a singular matrix.
\<close>

definition del_nth :: "nat \<Rightarrow> 'a list \<Rightarrow> 'a list" where
  "del_nth j xs = take j xs @ drop (Suc j) xs"

function linalg_det :: "cmatrix \<Rightarrow> complex" where
  "linalg_det [] = 1"
| "linalg_det (r # rows) =
     (\<Sum>j \<leftarrow> [0..<length r]. (- 1) ^ j * (r ! j) * linalg_det (map (del_nth j) rows))"
  by pat_completeness auto
termination
  by (relation "measure length") auto

definition cofactor :: "cmatrix \<Rightarrow> nat \<Rightarrow> nat \<Rightarrow> complex" where
  "cofactor A i j = (- 1) ^ (i + j) * linalg_det (map (del_nth j) (del_nth i A))"

definition linalg_inv :: "cmatrix \<Rightarrow> error + cmatrix" where
  "linalg_inv A =
     (if \<not> has_shape (length A) (length A) A then Inl LinAlgError
      else if linalg_det A = 0 then Inl LinAlgError
      else Inr (map (\<lambda>i. map (\<lambda>j. cofactor A j i / linalg_det A) [0..<length A]) [0..<length A]))"

subsection \<open>\<^verbatim>\<open>_evaluate_phi0\<close>\<close>

text \<open>
  \<open>\<Pi>\<close> is the tuple \<open>(q, p, Q, P, S)\<close>. The scalars \<^verbatim>\<open>1.0j / (2.0*eps**2)\<close> and
  \<^verbatim>\<open>1.0j / (eps**2)\<close> are quotients of Python numbers, which raise on a zero divisor.
  \<^verbatim>\<open>det(Q)**(-0.5)\<close> is the principal value of the power, the reciprocal of the
  principal square root.
\<close>

type_synonym parameters = "complex list \<times> complex list \<times> cmatrix \<times> cmatrix \<times> complex"

definition evaluate_phi0 ::
    "HagedornWavepacketBase \<Rightarrow> parameters \<Rightarrow> cmatrix \<Rightarrow> bool \<Rightarrow> error + complex list" where
  "evaluate_phi0 self Pi nodes prefactor =
     (let d = dimension self; eps = eps self; (q, p, Q, P, S) = Pi; D = length nodes in
      if \<not> (0 < D \<and> has_shape D (length (hd nodes)) nodes \<and> length q = D \<and> length p = D
             \<and> has_shape D D P)
      then Inl ValueError
      else
        let df = sub_column nodes q in
        (case linalg_inv Q of
           Inl e \<Rightarrow> Inl e
         | Inr Qinv \<Rightarrow>
             if \<not> has_shape D D Qinv then Inl ValueError
             else if eps = 0 then Inl ZeroDivisionError
             else
               let pr1 = sum_axis0 (mul_elementwise df (dot (mul_elementwise P Qinv) df));
                   pr2 = sum_axis0 (mul_column p df);
                   exponent = map2 (\<lambda>x y. \<i> / complex_of_real (2.0 * eps\<^sup>2) * x
                                            + \<i> / complex_of_real (eps\<^sup>2) * y) pr1 pr2;
                   prefactor =
                     (if prefactor
                      then complex_of_real ((pi * eps\<^sup>2) powr (- (real d * 0.25)))
                             * (1 / csqrt (linalg_det Q))
                      else complex_of_real ((pi * eps\<^sup>2) powr (- (real d * 0.25))))
               in Inr (map (\<lambda>x. prefactor * exp x) exponent)))"

text \<open>
  The amplitudes as the spec states them (section 4.6): the same computation with the
  matrix product of \<open>P\<close> and the inverse of \<open>Q\<close> in the quadratic form.
\<close>

definition phi0_of_spec ::
    "HagedornWavepacketBase \<Rightarrow> parameters \<Rightarrow> cmatrix \<Rightarrow> bool \<Rightarrow> error + complex list" where
  "phi0_of_spec self Pi nodes prefactor =
     (let d = dimension self; eps = eps self; (q, p, Q, P, S) = Pi; D = length nodes in
      if \<not> (0 < D \<and> has_shape D (length (hd nodes)) nodes \<and> length q = D \<and> length p = D
             \<and> has_shape D D P)
      then Inl ValueError
      else
        let df = sub_column nodes q in
        (case linalg_inv Q of
           Inl e \<Rightarrow> Inl e
         | Inr Qinv \<Rightarrow>
             if \<not> has_shape D D Qinv then Inl ValueError
             else if eps = 0 then Inl ZeroDivisionError
             else
               let pr1 = sum_axis0 (mul_elementwise df (dot (dot P Qinv) df));
                   pr2 = sum_axis0 (mul_column p df);
                   exponent = map2 (\<lambda>x y. \<i> / complex_of_real (2 * eps\<^sup>2) * x
                                            + \<i> / complex_of_real (eps\<^sup>2) * y) pr1 pr2;
                   normalization =
                     (if prefactor
                      then complex_of_real ((pi * eps\<^sup>2) powr (- (real d / 4)))
                             * (1 / csqrt (linalg_det Q))
                      else complex_of_real ((pi * eps\<^sup>2) powr (- (real d / 4))))
               in Inr (map (\<lambda>x. normalization * exp x) exponent)))"

section \<open>Concrete inputs\<close>

text \<open>
  Two one-dimensional basis shapes, \<open>{(0)}\<close> and \<open>{(0), (1)}\<close>, and a wavepacket with two
  components over them.
\<close>

definition shape1 :: BasisShape where
  "shape1 = \<lparr>bs_indices = [[0]], bs_lima = [[0] \<mapsto> 0]\<rparr>"

definition shape2 :: BasisShape where
  "shape2 = \<lparr>bs_indices = [[0], [1]], bs_lima = [[0] \<mapsto> 0, [1] \<mapsto> 1]\<rparr>"

text \<open>The shape \<open>{(2)}\<close>, which shares no multi-index with the other two.\<close>

definition shape_disjoint :: BasisShape where
  "shape_disjoint = \<lparr>bs_indices = [[2]], bs_lima = [[2] \<mapsto> 0]\<rparr>"

definition packet12 :: HagedornWavepacketBase where
  "packet12 = \<lparr>dimension = 1, eps = 1, number_components = 2,
     basis_shapes = [shape1, shape2], basis_sizes = [1, 2],
     coefficients = [[7], [8, 9]]\<rparr>"

text \<open>
  Root finders for the order 1: the Hermite polynomial \<open>2x\<close> has the root \<open>0\<close> (raw
  weight \<open>\<surd>\<pi>\<close>), the generalized Laguerre polynomial \<open>1 + a - x\<close> has the root \<open>1 + a\<close>.
  The constructors discard the raw weights.
\<close>

definition h_roots_order1 :: "int \<Rightarrow> error + roots" where
  "h_roots_order1 n = Inr ([0], [complex_of_real (sqrt pi)])"

definition la_roots_order1 :: "int \<Rightarrow> real \<Rightarrow> error + roots" where
  "la_roots_order1 n a = Inr ([complex_of_real (1 + a)], [1])"

text \<open>Two one-dimensional rules with two nodes each.\<close>

definition rule_a :: QuadratureRule where
  "rule_a = GH \<lparr>gh_dimension = 1, gh_order = 2, gh_options = [], gh_number_nodes = 2,
                 gh_nodes = [- 1, 1], gh_weights = [Some 2, Some 3]\<rparr>"

definition rule_b :: QuadratureRule where
  "rule_b = GL \<lparr>gl_dimension = 1, gl_order = 2, gl_a = 0, gl_options = [], gl_number_nodes = 2,
                 gl_nodes = [5, 6], gl_weights = [Some 7, Some 11]\<rparr>"

text \<open>
  A wavepacket in two dimensions with \<open>\<epsilon> = 1\<close> and a parameter set with a \<open>Q\<close> that is not
  diagonal: \<open>Q = [[1, 1], [0, 1]]\<close> and \<open>P = \<i> Q\<^sup>-\<^sup>T = [[\<i>, 0], [-\<i>, \<i>]]\<close>, which
  satisfy the symplecticity relations \<open>Q\<^sup>T P - P\<^sup>T Q = 0\<close> and \<open>Q\<^sup>H P - P\<^sup>H Q = 2\<i>\<close>,
  with \<open>q = p = 0\<close>; and the single node \<open>(1, 1)\<close>.
\<close>

definition packet2d :: HagedornWavepacketBase where
  "packet2d = \<lparr>dimension = 2, eps = 1, number_components = 1,
     basis_shapes = [shape1], basis_sizes = [1], coefficients = [[1]]\<rparr>"

definition Pi2d :: parameters where
  "Pi2d = ([0, 0], [0, 0], [[1, 1], [0, 1]], [[\<i>, 0], [- \<i>, \<i>]], 0)"

definition node11 :: cmatrix where
  "node11 = [[1], [1]]"

section \<open>Splitting and stacking the coefficient vector\<close>

lemma slice_append: "a \<le> b \<Longrightarrow> b \<le> c \<Longrightarrow> slice a b v @ slice b c v = slice a c v"
proof -
  assume ab: "a \<le> b" and bc: "b \<le> c"
  have "take (c - a) (drop a v) = take ((b - a) + (c - b)) (drop a v)" using ab bc by simp
  also have "\<dots> = take (b - a) (drop a v) @ take (c - b) (drop (b - a) (drop a v))"
    by (simp only: take_add)
  also have "drop (b - a) (drop a v) = drop b v" using ab by simp
  finally show ?thesis by (simp add: slice_def)
qed

lemma cumsum_from_Nil_iff: "cumsum_from a xs = [] \<longleftrightarrow> xs = []"
  by (cases xs) auto

lemma last_cumsum_from: "xs \<noteq> [] \<Longrightarrow> last (cumsum_from a xs) = a + sum_list xs"
proof (induction xs arbitrary: a)
  case Nil
  then show ?case by simp
next
  case (Cons x xs)
  show ?case
  proof (cases "xs = []")
    case True
    then show ?thesis by simp
  next
    case False
    with Cons.IH [of "a + x"] show ?thesis
      by (simp add: cumsum_from_Nil_iff add.assoc)
  qed
qed

lemma concat_sub_arys:
  "concat (sub_arys v (a # cumsum_from a xs)) = slice a (a + sum_list xs) v"
proof (induction xs arbitrary: a)
  case Nil
  then show ?case by (simp add: slice_def)
next
  case (Cons x xs)
  have "concat (sub_arys v (a # cumsum_from a (x # xs))) =
          slice a (a + x) v @ slice (a + x) (a + x + sum_list xs) v"
    using Cons.IH [of "a + x"] by simp
  also have "\<dots> = slice a (a + x + sum_list xs) v"
    by (rule slice_append) simp_all
  finally show ?case by (simp add: add.assoc)
qed

lemma length_sub_arys:
  "a + sum_list xs \<le> length v \<Longrightarrow> map length (sub_arys v (a # cumsum_from a xs)) = xs"
proof (induction xs arbitrary: a)
  case Nil
  then show ?case by simp
next
  case (Cons x xs)
  from Cons.prems have "a + x + sum_list xs \<le> length v" by simp
  from Cons.IH [OF this] Cons.prems show ?case by (simp add: slice_def)
qed

lemma vsplit_cumsum:
  assumes "xs \<noteq> []" "length v = sum_list xs"
  shows "vsplit v (butlast (cumsum xs)) = sub_arys v (0 # cumsum_from 0 xs)"
proof -
  have ne: "cumsum_from 0 xs \<noteq> []" using assms(1) by (simp add: cumsum_from_Nil_iff)
  have "butlast (cumsum_from 0 xs) @ [length v] = cumsum_from 0 xs"
    using ne last_cumsum_from [OF assms(1), of 0] assms(2)
    by (metis add_0 append_butlast_last_id)
  then show ?thesis by (simp add: vsplit_def cumsum_def)
qed

text \<open>
  C10. For a column vector \<open>v\<close> whose length is the sum of the basis sizes,
  \<^verbatim>\<open>set_coefficient_vector(v)\<close> followed by \<^verbatim>\<open>get_coefficient_vector()\<close> returns \<open>v\<close>,
  and, in a wavepacket with at least one component, the vectors stored per component
  have the successive basis sizes as their lengths. (With no component at all
  \<^verbatim>\<open>vsplit\<close> still returns one piece, the empty vector.)
\<close>

theorem set_get_coefficient_vector:
  "length v = sum_list (basis_sizes s) \<Longrightarrow>
   get_coefficient_vector (set_coefficient_vector v s) = Inr v \<and>
   (basis_sizes s \<noteq> [] \<longrightarrow>
      map length (coefficients (set_coefficient_vector v s)) = basis_sizes s)"
proof (cases "basis_sizes s = []")
  case True
  assume "length v = sum_list (basis_sizes s)"
  with True show ?thesis
    by (simp add: get_coefficient_vector_def set_coefficient_vector_def vstack_def
        vsplit_def cumsum_def slice_def)
next
  case False
  assume len: "length v = sum_list (basis_sizes s)"
  have eq: "coefficients (set_coefficient_vector v s) =
      sub_arys v (0 # cumsum_from 0 (basis_sizes s))"
    using vsplit_cumsum [OF False len] by (simp add: set_coefficient_vector_def)
  obtain x xs where xs: "basis_sizes s = x # xs" using False by (cases "basis_sizes s") auto
  have ne: "sub_arys v (0 # cumsum_from 0 (basis_sizes s)) \<noteq> []"
    by (simp add: xs)
  have "concat (sub_arys v (0 # cumsum_from 0 (basis_sizes s))) = v"
    using concat_sub_arys [of v 0 "basis_sizes s"] len by (simp add: slice_def)
  moreover have "map length (sub_arys v (0 # cumsum_from 0 (basis_sizes s))) = basis_sizes s"
    using length_sub_arys [of 0 "basis_sizes s" v] len by simp
  ultimately show ?thesis using eq ne
    by (simp add: get_coefficient_vector_def vstack_def)
qed

theorem set_get_coefficient_vector_witness:
  "get_coefficient_vector (set_coefficient_vector [1, 2, 3] packet12) = Inr [1, 2, 3] \<and>
   map length (coefficients (set_coefficient_vector [1, 2, 3] packet12)) = [1, 2]"
  using set_get_coefficient_vector [of "[1, 2, 3]" packet12]
  by (simp add: packet12_def)

section \<open>Setting the coefficients of one component\<close>

lemma set_coefficients_component_raises:
  "0 \<le> c \<Longrightarrow> c < int (number_components s) \<Longrightarrow> wf_store s \<Longrightarrow>
   set_coefficients vals (Some c) s = Inl (UnboundLocalError, s)"
  by (auto simp: set_coefficients_def wf_store_def)

text \<open>
  C5. The claim is that \<^verbatim>\<open>set_coefficients(values, component=i)\<close> stores a copy of the
  data as a column of the basis size of component \<open>i\<close>. The method raises instead: on
  the wavepacket \<open>packet12\<close>, whose component 1 has basis size 2, the call with an array of
  two entries ends in \<^verbatim>\<open>UnboundLocalError\<close> and leaves the stored vectors as they were.
\<close>

theorem set_coefficients_component_at_input:
  "set_coefficients [[8, 9]] (Some 1) packet12 = Inl (UnboundLocalError, packet12)"
  by (simp add: set_coefficients_def packet12_def)

section \<open>Well-formedness of the concrete inputs\<close>

lemma wf_shape1: "wf_shape shape1"
  by (simp add: wf_shape_def shape1_def get_basissize_def)

lemma wf_shape2: "wf_shape shape2"
  by (simp add: wf_shape_def shape2_def get_basissize_def inj_on_def)

lemma wf_packet12: "wf_store packet12"
  by (simp add: wf_store_def packet12_def shape1_def shape2_def get_basissize_def)

section \<open>Resizing the coefficient storage\<close>

lemma map_err_Inr:
  "(\<And>x. x \<in> set xs \<Longrightarrow> f x = Inr (g x)) \<Longrightarrow> map_err f xs = Inr (map g xs)"
  by (induction xs) auto

lemma assign_rows_fold:
  "(\<And>k. k \<in> set ks \<Longrightarrow> f k < length base) \<Longrightarrow>
   assign_rows base (map f ks) (map g ks) = Inr (fold (\<lambda>k acc. acc[f k := g k]) ks base)"
  by (induction ks arbitrary: base) auto

lemma put_rows_fold:
  "ks \<noteq> [] \<Longrightarrow> (\<And>k. k \<in> set ks \<Longrightarrow> f k < length base) \<Longrightarrow>
   put_rows base (map f ks) (map g ks) = Inr (fold (\<lambda>k acc. acc[f k := g k]) ks base)"
  by (simp add: put_rows_def assign_rows_fold)

lemma length_fold_upd: "length (fold (\<lambda>k acc. acc[f k := g k]) ks base) = length base"
  by (induction ks arbitrary: base) auto

lemma fold_upd_other:
  "j \<notin> f ` set ks \<Longrightarrow> fold (\<lambda>k acc. acc[f k := g k]) ks base ! j = base ! j"
  by (induction ks arbitrary: base) auto

lemma fold_upd_hit:
  "k \<in> set ks \<Longrightarrow> inj_on f (set ks) \<Longrightarrow> (\<And>k. k \<in> set ks \<Longrightarrow> f k < length base) \<Longrightarrow>
   fold (\<lambda>k acc. acc[f k := g k]) ks base ! f k = g k"
proof (induction ks arbitrary: base)
  case Nil
  then show ?case by simp
next
  case (Cons k' ks)
  have inj: "inj_on f (set ks)" using Cons.prems(2) by (simp add: inj_on_def)
  show ?case
  proof (cases "k \<in> set ks")
    case True
    have "fold (\<lambda>k acc. acc[f k := g k]) ks (base[f k' := g k']) ! f k = g k"
      using Cons.prems(3) by (intro Cons.IH [OF True inj]) simp
    then show ?thesis by simp
  next
    case False
    with Cons.prems(1) have kk: "k = k'" by simp
    have "f k \<notin> f ` set ks"
    proof
      assume "f k \<in> f ` set ks"
      then obtain k2 where k2: "k2 \<in> set ks" "f k = f k2" by auto
      with Cons.prems(2) kk have "k = k2" by (auto simp: inj_on_def)
      with k2 False show False by simp
    qed
    then have "fold (\<lambda>k acc. acc[f k := g k]) ks (base[f k' := g k']) ! f k = (base[f k' := g k']) ! f k"
      by (rule fold_upd_other)
    also have "\<dots> = g k" using kk Cons.prems(3) [of k'] by simp
    finally show ?thesis by simp
  qed
qed

lemma wf_shape_getitem: "wf_shape bs \<Longrightarrow> k \<in> set (bs_indices bs) \<Longrightarrow> getitem bs k = Inr (lin bs k)"
  by (auto simp: wf_shape_def getitem_def lin_def)

lemma wf_shape_lin_less: "wf_shape bs \<Longrightarrow> k \<in> set (bs_indices bs) \<Longrightarrow> lin bs k < get_basissize bs"
  by (auto simp: wf_shape_def lin_def)

lemma wf_shape_lin_inj: "wf_shape bs \<Longrightarrow> inj_on (lin bs) (set (bs_indices bs))"
  unfolding wf_shape_def lin_def inj_on_def
  by (metis option.sel)

lemma insec_set:
  "\<exists>ks. insec A B = Inr ks \<and> set ks = set (bs_indices A) \<inter> set (bs_indices B)"
  by (auto simp: insec_def Let_def contains_def)

text \<open>
  When the old and the new shape share no multi-index, the index arrays are empty and
  the assignment of line 51 raises.
\<close>

lemma resize_coefficient_storage_disjoint:
  assumes "set (bs_indices A) \<inter> set (bs_indices B) = {}"
  shows "resize_coefficient_storage component A B s = Inl IndexError"
proof -
  obtain ks where ks: "insec A B = Inr ks" "set ks = set (bs_indices A) \<inter> set (bs_indices B)"
    using insec_set by blast
  with assms have "ks = []" by simp
  then show ?thesis
    by (simp add: resize_coefficient_storage_def ks(1) take_rows_def)
qed

lemma set_basis_shape_disjoint:
  assumes "0 \<le> i" "i < int (number_components s)"
    and "set (bs_indices (basis_shapes s ! nat i)) \<inter> set (bs_indices B) = {}"
  shows "set_basis_shape (Inl B) (Some i) s = Inl (IndexError, s)"
  using assms
  by (simp add: set_basis_shape_def set_one_shape_def resize_coefficient_storage_disjoint)

text \<open>When they share a multi-index, the coefficients are remapped.\<close>

lemma resize_coefficient_storage_result:
  assumes A: "wf_shape A" and B: "wf_shape B"
    and ne: "set (bs_indices A) \<inter> set (bs_indices B) \<noteq> {}"
    and comp: "component < length (coefficients s)"
    and len: "length (coefficients s ! component) = get_basissize A"
  shows "\<exists>cnew. resize_coefficient_storage component A B s =
            Inr (s\<lparr>coefficients := (coefficients s)[component := cnew]\<rparr>) \<and>
          length cnew = get_basissize B \<and>
          (\<forall>k. k \<in> set (bs_indices A) \<and> k \<in> set (bs_indices B) \<longrightarrow>
               cnew ! lin B k = coefficients s ! component ! lin A k) \<and>
          (\<forall>j. j \<notin> lin B ` (set (bs_indices A) \<inter> set (bs_indices B)) \<longrightarrow> j < get_basissize B \<longrightarrow> cnew ! j = 0)"
proof -
  let ?c = "coefficients s ! component"
  obtain ks where ks: "insec A B = Inr ks" "set ks = set (bs_indices A) \<inter> set (bs_indices B)"
    using insec_set by blast
  let ?f = "lin B" and ?g = "\<lambda>k. ?c ! lin A k"
  let ?base = "replicate (get_basissize B) (0::complex)"
  let ?cnew = "fold (\<lambda>k acc. acc[?f k := ?g k]) ks ?base"
  have ks_ne: "ks \<noteq> []" using ks(2) ne by auto
  have i: "map_err (getitem A) ks = Inr (map (lin A) ks)"
    using ks(2) A by (intro map_err_Inr) (simp add: wf_shape_getitem)
  have j: "map_err (getitem B) ks = Inr (map (lin B) ks)"
    using ks(2) B by (intro map_err_Inr) (simp add: wf_shape_getitem)
  have "map_err (\<lambda>n. if n < length ?c then Inr (?c ! n) else Inl IndexError) (map (lin A) ks) =
          Inr (map (\<lambda>n. ?c ! n) (map (lin A) ks))"
    using ks(2) A len by (intro map_err_Inr) (auto simp: wf_shape_lin_less)
  then have "take_rows ?c (map (lin A) ks) = Inr (map (\<lambda>n. ?c ! n) (map (lin A) ks))"
    using ks_ne by (simp add: take_rows_def)
  then have vals: "take_rows ?c (map (lin A) ks) = Inr (map ?g ks)" by (simp add: comp_def)
  have inrange: "\<And>k. k \<in> set ks \<Longrightarrow> ?f k < length ?base"
    using ks(2) B by (simp add: wf_shape_lin_less)
  have put: "put_rows ?base (map ?f ks) (map ?g ks) = Inr ?cnew"
    using ks_ne inrange by (rule put_rows_fold)
  have res: "resize_coefficient_storage component A B s =
            Inr (s\<lparr>coefficients := (coefficients s)[component := ?cnew]\<rparr>)"
    using comp by (simp add: resize_coefficient_storage_def ks(1) i j vals put)
  have l: "length ?cnew = get_basissize B" by (simp add: length_fold_upd)
  have inj: "inj_on ?f (set ks)"
    using wf_shape_lin_inj [OF B] ks(2) by (auto simp: inj_on_def)
  have hit: "\<forall>k. k \<in> set (bs_indices A) \<and> k \<in> set (bs_indices B) \<longrightarrow> ?cnew ! lin B k = ?g k"
  proof (intro allI impI)
    fix k assume "k \<in> set (bs_indices A) \<and> k \<in> set (bs_indices B)"
    then have "k \<in> set ks" using ks(2) by simp
    then show "?cnew ! lin B k = ?g k" using inj inrange by (rule fold_upd_hit)
  qed
  have miss: "\<forall>j. j \<notin> lin B ` (set (bs_indices A) \<inter> set (bs_indices B)) \<longrightarrow> j < get_basissize B \<longrightarrow> ?cnew ! j = 0"
  proof (intro allI impI)
    fix j assume "j \<notin> lin B ` (set (bs_indices A) \<inter> set (bs_indices B))" and jl: "j < get_basissize B"
    then have "j \<notin> ?f ` set ks" using ks(2) by simp
    then have "?cnew ! j = ?base ! j" by (rule fold_upd_other)
    then show "?cnew ! j = 0" using jl by simp
  qed
  from res l hit miss show ?thesis by blast
qed

lemma set_basis_shape_component:
  assumes s: "wf_store s" and i: "0 \<le> i" "i < int (number_components s)"
    and A: "basis_shapes s ! nat i = A" "wf_shape A" and B: "wf_shape B"
    and ne: "set (bs_indices A) \<inter> set (bs_indices B) \<noteq> {}"
  shows "\<exists>s'. set_basis_shape (Inl B) (Some i) s = Inr s' \<and> wf_store s' \<and>
           number_components s' = number_components s \<and>
           basis_shapes s' ! nat i = B \<and>
           length (coefficients s' ! nat i) = get_basissize B \<and>
           (\<forall>k. k \<in> set (bs_indices A) \<and> k \<in> set (bs_indices B) \<longrightarrow>
               coefficients s' ! nat i ! lin B k = coefficients s ! nat i ! lin A k) \<and>
           (\<forall>j. j \<notin> lin B ` (set (bs_indices A) \<inter> set (bs_indices B)) \<longrightarrow>
               j < get_basissize B \<longrightarrow> coefficients s' ! nat i ! j = 0)"
proof -
  let ?n = "nat i"
  have n: "?n < number_components s" using i by simp
  have lens: "length (basis_shapes s) = number_components s"
    "length (coefficients s) = number_components s"
    using s by (simp_all add: wf_store_def)
  have sizes: "map length (coefficients s) = map get_basissize (basis_shapes s)"
    using s by (simp add: wf_store_def)
  have "length (coefficients s ! ?n) = map length (coefficients s) ! ?n"
    using n lens by simp
  also have "\<dots> = get_basissize A" using sizes n lens A(1) by simp
  finally have len: "length (coefficients s ! ?n) = get_basissize A" .
  have comp: "?n < length (coefficients s)" using n lens by simp
  obtain cnew where cnew:
    "resize_coefficient_storage ?n A B s = Inr (s\<lparr>coefficients := (coefficients s)[?n := cnew]\<rparr>)"
    "length cnew = get_basissize B"
    "\<forall>k. k \<in> set (bs_indices A) \<and> k \<in> set (bs_indices B) \<longrightarrow>
        cnew ! lin B k = coefficients s ! ?n ! lin A k"
    "\<forall>j. j \<notin> lin B ` (set (bs_indices A) \<inter> set (bs_indices B)) \<longrightarrow>
        j < get_basissize B \<longrightarrow> cnew ! j = 0"
    using resize_coefficient_storage_result [OF A(2) B ne comp len] by blast
  let ?s' = "update_caches (s\<lparr>coefficients := (coefficients s)[?n := cnew],
                               basis_shapes := (basis_shapes s)[?n := B]\<rparr>)"
  have one: "set_one_shape ?n B s =
      Inr (s\<lparr>coefficients := (coefficients s)[?n := cnew], basis_shapes := (basis_shapes s)[?n := B]\<rparr>)"
    using n lens A(1) cnew(1) by (simp add: set_one_shape_def)
  have res: "set_basis_shape (Inl B) (Some i) s = Inr ?s'"
    using i one by (simp add: set_basis_shape_def)
  have "map length ((coefficients s)[?n := cnew]) = map get_basissize ((basis_shapes s)[?n := B])"
    using sizes cnew(2) by (simp add: map_update)
  then have wf: "wf_store ?s'"
    using lens by (simp add: wf_store_def update_caches_def)
  have c: "coefficients ?s' ! ?n = cnew" using comp by (simp add: update_caches_def)
  have b: "basis_shapes ?s' ! ?n = B" using n lens by (simp add: update_caches_def)
  have nc: "number_components ?s' = number_components s" by (simp add: update_caches_def)
  show ?thesis
    using res wf nc b c cnew(2,3,4) by (intro exI [of _ ?s']) simp
qed

lemma set_basis_shape_remaps:
  assumes "wf_store s" "0 \<le> i" "i < int (number_components s)"
    and "basis_shapes s ! nat i = A" "wf_shape A" "wf_shape B"
    and "set (bs_indices A) \<inter> set (bs_indices B) \<noteq> {}"
  shows "\<exists>s'. set_basis_shape (Inl B) (Some i) s = Inr s' \<and>
           basis_shapes s' ! nat i = B \<and>
           length (coefficients s' ! nat i) = get_basissize B \<and>
           (\<forall>k \<in> set (bs_indices A) \<inter> set (bs_indices B).
               coefficients s' ! nat i ! lin B k = coefficients s ! nat i ! lin A k) \<and>
           (\<forall>j < get_basissize B. j \<notin> lin B ` (set (bs_indices A) \<inter> set (bs_indices B)) \<longrightarrow>
               coefficients s' ! nat i ! j = 0)"
proof -
  from set_basis_shape_component [OF assms] obtain s' where
    "set_basis_shape (Inl B) (Some i) s = Inr s'"
    "basis_shapes s' ! nat i = B"
    "length (coefficients s' ! nat i) = get_basissize B"
    "\<forall>k. k \<in> set (bs_indices A) \<and> k \<in> set (bs_indices B) \<longrightarrow>
               coefficients s' ! nat i ! lin B k = coefficients s ! nat i ! lin A k"
    "\<forall>j. j \<notin> lin B ` (set (bs_indices A) \<inter> set (bs_indices B)) \<longrightarrow>
               j < get_basissize B \<longrightarrow> coefficients s' ! nat i ! j = 0"
    by blast
  then show ?thesis by (intro exI [of _ s']) simp
qed

lemma set_basis_shape_remaps_example:
  "\<exists>s'. set_basis_shape (Inl shape1) (Some 1) packet12 = Inr s' \<and>
         basis_shapes s' ! 1 = shape1 \<and>
         coefficients s' ! 1 = [8]"
proof -
  have b: "basis_shapes packet12 ! nat 1 = shape2" by (simp add: packet12_def)
  have ne: "set (bs_indices shape2) \<inter> set (bs_indices shape1) \<noteq> {}"
    by (simp add: shape1_def shape2_def)
  from set_basis_shape_remaps [OF wf_packet12 _ _ b wf_shape2 wf_shape1 ne]
  obtain s' where s': "set_basis_shape (Inl shape1) (Some 1) packet12 = Inr s'"
    "basis_shapes s' ! nat 1 = shape1"
    "length (coefficients s' ! nat 1) = get_basissize shape1"
    "\<forall>k \<in> set (bs_indices shape2) \<inter> set (bs_indices shape1).
        coefficients s' ! nat 1 ! lin shape1 k = coefficients packet12 ! nat 1 ! lin shape2 k"
    by (auto simp: packet12_def)
  from s'(4) have "coefficients s' ! 1 ! 0 = 8"
    by (simp add: shape1_def shape2_def lin_def packet12_def)
  moreover from s'(3) have "length (coefficients s' ! 1) = 1"
    by (simp add: shape1_def get_basissize_def)
  ultimately have "coefficients s' ! 1 = [8]"
    by (cases "coefficients s' ! 1") auto
  with s'(1,2) show ?thesis by auto
qed

lemma basis_shape_round_trip:
  assumes "wf_store s" "0 \<le> i" "i < int (number_components s)"
    and "basis_shapes s ! nat i = A" "wf_shape A" "wf_shape B"
    and "set (bs_indices A) \<inter> set (bs_indices B) \<noteq> {}"
  shows "\<exists>s1 s2. set_basis_shape (Inl B) (Some i) s = Inr s1 \<and>
           set_basis_shape (Inl A) (Some i) s1 = Inr s2 \<and>
           length (coefficients s2 ! nat i) = get_basissize A \<and>
           (\<forall>k \<in> set (bs_indices A).
               coefficients s2 ! nat i ! lin A k =
                 (if k \<in> set (bs_indices B) then coefficients s ! nat i ! lin A k else 0))"
proof -
  from set_basis_shape_component [OF assms] obtain s1 where s1:
    "set_basis_shape (Inl B) (Some i) s = Inr s1" "wf_store s1"
    "number_components s1 = number_components s"
    "basis_shapes s1 ! nat i = B"
    "\<forall>k. k \<in> set (bs_indices A) \<and> k \<in> set (bs_indices B) \<longrightarrow>
               coefficients s1 ! nat i ! lin B k = coefficients s ! nat i ! lin A k"
    by blast
  have i1: "i < int (number_components s1)" using assms(3) s1(3) by simp
  have ne: "set (bs_indices B) \<inter> set (bs_indices A) \<noteq> {}" using assms(7) by auto
  from set_basis_shape_component [OF s1(2) assms(2) i1 s1(4) assms(6) assms(5) ne]
  obtain s2 where s2:
    "set_basis_shape (Inl A) (Some i) s1 = Inr s2"
    "length (coefficients s2 ! nat i) = get_basissize A"
    "\<forall>k. k \<in> set (bs_indices B) \<and> k \<in> set (bs_indices A) \<longrightarrow>
               coefficients s2 ! nat i ! lin A k = coefficients s1 ! nat i ! lin B k"
    "\<forall>j. j \<notin> lin A ` (set (bs_indices B) \<inter> set (bs_indices A)) \<longrightarrow>
               j < get_basissize A \<longrightarrow> coefficients s2 ! nat i ! j = 0"
    by blast
  have "coefficients s2 ! nat i ! lin A k =
          (if k \<in> set (bs_indices B) then coefficients s ! nat i ! lin A k else 0)"
    if k: "k \<in> set (bs_indices A)" for k
  proof (cases "k \<in> set (bs_indices B)")
    case True
    with k s2(3) s1(5) show ?thesis by simp
  next
    case False
    have "lin A k \<notin> lin A ` (set (bs_indices B) \<inter> set (bs_indices A))"
    proof
      assume "lin A k \<in> lin A ` (set (bs_indices B) \<inter> set (bs_indices A))"
      then obtain k' where k': "k' \<in> set (bs_indices B)" "k' \<in> set (bs_indices A)" "lin A k = lin A k'"
        by auto
      with wf_shape_lin_inj [OF assms(5)] k have "k = k'" by (auto simp: inj_on_def)
      with k' False show False by simp
    qed
    moreover have "lin A k < get_basissize A" using assms(5) k by (rule wf_shape_lin_less)
    ultimately have "coefficients s2 ! nat i ! lin A k = 0" using s2(4) by blast
    with False show ?thesis by simp
  qed
  with s1(1) s2(1,2) show ?thesis by blast
qed

lemma basis_shape_round_trip_example:
  "\<exists>s1 s2. set_basis_shape (Inl shape1) (Some 1) packet12 = Inr s1 \<and>
           set_basis_shape (Inl shape2) (Some 1) s1 = Inr s2 \<and>
           coefficients s2 ! 1 = [8, 0]"
proof -
  have b: "basis_shapes packet12 ! nat 1 = shape2" by (simp add: packet12_def)
  have ne: "set (bs_indices shape2) \<inter> set (bs_indices shape1) \<noteq> {}"
    by (simp add: shape1_def shape2_def)
  from basis_shape_round_trip [OF wf_packet12 _ _ b wf_shape2 wf_shape1 ne]
  obtain s1 s2 where s: "set_basis_shape (Inl shape1) (Some 1) packet12 = Inr s1"
    "set_basis_shape (Inl shape2) (Some 1) s1 = Inr s2"
    "length (coefficients s2 ! nat 1) = get_basissize shape2"
    "\<forall>k \<in> set (bs_indices shape2).
               coefficients s2 ! nat 1 ! lin shape2 k =
                 (if k \<in> set (bs_indices shape1) then coefficients packet12 ! nat 1 ! lin shape2 k else 0)"
    by (auto simp: packet12_def)
  from s(4) have "coefficients s2 ! 1 ! 0 = 8" "coefficients s2 ! 1 ! 1 = 0"
    by (simp_all add: shape1_def shape2_def lin_def packet12_def)
  moreover from s(3) have "length (coefficients s2 ! 1) = 2"
    by (simp add: shape2_def get_basissize_def)
  ultimately have "coefficients s2 ! 1 = [8, 0]"
    by (auto simp: list_eq_iff_nth_eq less_Suc_eq numeral_2_eq_2)
  with s(1,2) show ?thesis by auto
qed

lemma wf_shape_disjoint: "wf_shape shape_disjoint"
  by (simp add: wf_shape_def shape_disjoint_def get_basissize_def)

text \<open>
  C2. The claim is that setting a new shape \<open>B\<close> for a component with the shape \<open>A\<close>
  replaces the coefficient vector by a vector of length \<open>|B|\<close> with the entries of the
  common multi-indices carried over and every other entry zero, for every \<open>A\<close> and \<open>B\<close>.
  For shapes with a common multi-index the source does so (\<open>set_basis_shape_remaps\<close>).
  For the new shape \<open>{(2)}\<close> and component 0 of \<open>packet12\<close>, whose shape is \<open>{(0)}\<close>, the
  claim gives the vector \<open>[0]\<close>; the call raises \<^verbatim>\<open>IndexError\<close> and changes nothing.
\<close>

theorem set_basis_shape_disjoint_shape:
  "set_basis_shape (Inl shape_disjoint) (Some 0) packet12 = Inl (IndexError, packet12)"
  by (simp add: set_basis_shape_def set_one_shape_def resize_coefficient_storage_def insec_def
      get_basissize_def contains_def take_rows_def packet12_def shape1_def shape_disjoint_def)

text \<open>
  C8. The claim is that changing the shape of a component from \<open>A\<close> to \<open>B\<close> and back
  keeps the coefficients of the common multi-indices and zeroes the others, for every
  \<open>A\<close> and \<open>B\<close>. For shapes with a common multi-index the source does so
  (\<open>basis_shape_round_trip\<close>). For component 1 of \<open>packet12\<close>, with the shape
  \<open>A = {(0), (1)}\<close> and the coefficients \<open>[8, 9]\<close>, and \<open>B = {(2)}\<close>, the claim gives
  \<open>[0, 0]\<close> after the round trip; the first call raises \<^verbatim>\<open>IndexError\<close> and the
  coefficients stay \<open>[8, 9]\<close>.
\<close>

theorem round_trip_disjoint_shape:
  "set_basis_shape (Inl shape_disjoint) (Some 1) packet12 = Inl (IndexError, packet12) \<and>
   coefficients packet12 ! 1 = [8, 9]"
  by (simp add: set_basis_shape_def set_one_shape_def resize_coefficient_storage_def insec_def
      get_basissize_def contains_def take_rows_def packet12_def shape2_def shape_disjoint_def)

section \<open>Failures of the whole-store mutators\<close>

lemma set_coefficients_loop_ok:
  "length (basis_sizes s) = length (coefficients s) \<Longrightarrow>
   index + length vals = length (coefficients s) \<Longrightarrow>
   j < length vals \<Longrightarrow>
   length (vals ! j) \<noteq> basis_sizes s ! (index + j) \<Longrightarrow>
   (\<forall>i<j. length (vals ! i) = basis_sizes s ! (index + i)) \<Longrightarrow>
   set_coefficients_loop index vals s =
     Inl (ValueError, s\<lparr>coefficients := take index (coefficients s) @ take j vals @ drop (index + j) (coefficients s)\<rparr>)"
proof (induction vals arbitrary: index s j)
  case Nil
  then show ?case by simp
next
  case (Cons v vals)
  show ?case
  proof (cases j)
    case 0
    with Cons.prems show ?thesis by simp
  next
    case (Suc j')
    let ?s = "s\<lparr>coefficients := (coefficients s)[index := v]\<rparr>"
    from Cons.prems Suc have len: "length v = basis_sizes s ! index" by auto
    have ix: "index < length (coefficients s)" using Cons.prems by simp
    have step: "set_coefficients_loop index (v # vals) s = set_coefficients_loop (Suc index) vals ?s"
      using Cons.prems len ix by simp
    have all: "\<forall>i<j'. length (vals ! i) = basis_sizes ?s ! (Suc index + i)"
    proof (intro allI impI)
      fix i assume "i < j'"
      then have "Suc i < j" using Suc by simp
      with Cons.prems(5) have "length ((v # vals) ! Suc i) = basis_sizes s ! (index + Suc i)" by blast
      then show "length (vals ! i) = basis_sizes ?s ! (Suc index + i)" by simp
    qed
    have bad: "length (vals ! j') \<noteq> basis_sizes ?s ! (Suc index + j')"
      using Cons.prems(4) Suc by simp
    have IH: "set_coefficients_loop (Suc index) vals ?s =
      Inl (ValueError, ?s\<lparr>coefficients := take (Suc index) (coefficients ?s) @ take j' vals @ drop (Suc index + j') (coefficients ?s)\<rparr>)"
      using Cons.prems(1,2,3) Suc by (intro Cons.IH [OF _ _ _ bad all]) simp_all
    have "take (Suc index) ((coefficients s)[index := v]) = take index (coefficients s) @ [v]"
      using ix by (simp add: take_Suc_conv_app_nth)
    moreover have "drop (Suc index + j') ((coefficients s)[index := v]) = drop (index + j) (coefficients s)"
      using Suc by simp
    ultimately show ?thesis using step IH Suc by simp
  qed
qed

text \<open>
  C7, as amended. A whole-store mutator that fails on a count mismatch (a list of basis
  shapes, or a list of coefficient arrays, whose length is not the number of
  components) raises before it changes anything. \<^verbatim>\<open>set_coefficients\<close> with the right
  number of arrays, of which the one at index \<open>j\<close> is the first of a wrong length,
  raises with the components before \<open>j\<close> already overwritten and the components from \<open>j\<close>
  on as they were.
\<close>

theorem whole_store_failures:
  "(length shapes \<noteq> number_components s \<longrightarrow>
      set_basis_shape (Inr shapes) None s = Inl (ValueError, s)) \<and>
   (length vals \<noteq> number_components s \<longrightarrow>
      set_coefficients vals None s = Inl (ValueError, s)) \<and>
   (wf_store s \<and> length vals = number_components s \<and> j < length vals \<and>
    length (vals ! j) \<noteq> basis_sizes s ! j \<and>
    (\<forall>i<j. length (vals ! i) = basis_sizes s ! i) \<longrightarrow>
      set_coefficients vals None s =
        Inl (ValueError, s\<lparr>coefficients := take j vals @ drop j (coefficients s)\<rparr>))"
proof (intro conjI impI)
  assume "length shapes \<noteq> number_components s"
  then show "set_basis_shape (Inr shapes) None s = Inl (ValueError, s)"
    by (simp add: set_basis_shape_def)
next
  assume "length vals \<noteq> number_components s"
  then show "set_coefficients vals None s = Inl (ValueError, s)"
    by (simp add: set_coefficients_def)
next
  assume a: "wf_store s \<and> length vals = number_components s \<and> j < length vals \<and>
    length (vals ! j) \<noteq> basis_sizes s ! j \<and>
    (\<forall>i<j. length (vals ! i) = basis_sizes s ! i)"
  then have l: "length (basis_sizes s) = length (coefficients s)"
    "0 + length vals = length (coefficients s)"
    by (auto simp: wf_store_def)
  have "set_coefficients_loop 0 vals s =
     Inl (ValueError, s\<lparr>coefficients := take 0 (coefficients s) @ take j vals @ drop (0 + j) (coefficients s)\<rparr>)"
    using a by (intro set_coefficients_loop_ok [OF l]) simp_all
  then show "set_coefficients vals None s =
        Inl (ValueError, s\<lparr>coefficients := take j vals @ drop j (coefficients s)\<rparr>)"
    using a by (simp add: set_coefficients_def)
qed

theorem whole_store_failures_witness:
  "set_basis_shape (Inr [shape1]) None packet12 = Inl (ValueError, packet12) \<and>
   set_coefficients [[5]] None packet12 = Inl (ValueError, packet12) \<and>
   set_coefficients [[5], [1]] None packet12 =
     Inl (ValueError, packet12\<lparr>coefficients := [[5], [8, 9]]\<rparr>)"
proof -
  have c: "coefficients packet12 = [[7], [8, 9]]" "basis_sizes packet12 = [1, 2]"
    "number_components packet12 = 2"
    by (simp_all add: packet12_def)
  have 1: "set_basis_shape (Inr [shape1]) None packet12 = Inl (ValueError, packet12)"
    using whole_store_failures [of "[shape1]" packet12] c by simp
  have 2: "set_coefficients [[5]] None packet12 = Inl (ValueError, packet12)"
    using whole_store_failures [of _ packet12 "[[5]]"] c by simp
  have 3: "set_coefficients [[5], [1]] None packet12 =
     Inl (ValueError, packet12\<lparr>coefficients := [[5], [8, 9]]\<rparr>)"
    using whole_store_failures [of _ packet12 "[[5], [1]]" 1] wf_packet12 c by simp
  from 1 2 3 show ?thesis by simp
qed

text \<open>
  The claim C7 as stated fails: with basis sizes 1 and 2, the arrays \<open>[5]\<close> and \<open>[1]\<close>
  make \<^verbatim>\<open>set_coefficients\<close> raise on the second array after it has stored the first.
\<close>

theorem set_coefficients_partial_write:
  "set_coefficients [[5], [1]] None packet12 =
     Inl (ValueError, packet12\<lparr>coefficients := [[5], [8, 9]]\<rparr>) \<and>
   coefficients (packet12\<lparr>coefficients := [[5], [8, 9]]\<rparr>) \<noteq> coefficients packet12"
  by (simp add: set_coefficients_def packet12_def)

section \<open>The Hermite recursion of the Gauss-Laguerre rule\<close>

lemma hermite_row0_eq: "hermite_row0 xs = map (hermite_function 0) xs"
  by (simp add: hermite_row0_def)

lemma hermite_row1_eq:
  assumes "H ! 0 = map (hermite_function 0) xs"
  shows "hermite_row1 xs H = map (hermite_function (Suc 0)) xs"
proof (rule nth_equalityI)
  show "length (hermite_row1 xs H) = length (map (hermite_function (Suc 0)) xs)"
    by (simp add: hermite_row1_def)
next
  fix i assume "i < length (hermite_row1 xs H)"
  then have i: "i < length xs" by (simp add: hermite_row1_def)
  have "H ! 0 ! i = hermite_function 0 (xs ! i)" using assms i by simp
  then show "hermite_row1 xs H ! i = map (hermite_function (Suc 0)) xs ! i"
    using i by (simp add: hermite_row1_def del: hermite_function.simps(1))
qed

lemma hermite_row_eq:
  assumes "H ! Suc k = map (hermite_function (Suc k)) xs" "H ! k = map (hermite_function k) xs"
  shows "hermite_row (Suc (Suc k)) xs H = map (hermite_function (Suc (Suc k))) xs"
proof (rule nth_equalityI)
  show "length (hermite_row (Suc (Suc k)) xs H) = length (map (hermite_function (Suc (Suc k))) xs)"
    by (simp add: hermite_row_def)
next
  fix i assume "i < length (hermite_row (Suc (Suc k)) xs H)"
  then have i: "i < length xs" by (simp add: hermite_row_def)
  have a: "H ! Suc k ! i = hermite_function (Suc k) (xs ! i)" using assms(1) i by simp
  have b: "H ! k ! i = hermite_function k (xs ! i)" using assms(2) i by simp
  have c: "real (Suc (Suc k)) - 1 = real (Suc k)" by simp
  have "hermite_row (Suc (Suc k)) xs H ! i =
      sqrt (2 / real (Suc (Suc k))) * (xs ! i) * (H ! Suc k ! i)
        - sqrt ((real (Suc (Suc k)) - 1) / real (Suc (Suc k))) * (H ! k ! i)"
    using i by (simp add: hermite_row_def)
  also have "\<dots> = hermite_function (Suc (Suc k)) (xs ! i)"
    unfolding a b c by (simp only: hermite_function.simps(3))
  finally show "hermite_row (Suc (Suc k)) xs H ! i = map (hermite_function (Suc (Suc k))) xs ! i"
    using i by (simp del: hermite_function.simps)
qed

lemma hermite_fold:
  assumes "2 \<le> m" "m \<le> length H"
    and "H ! 0 = map (hermite_function 0) xs" "H ! 1 = map (hermite_function 1) xs"
  shows "length (fold (\<lambda>k H. H[k := hermite_row k xs H]) [2..<m] H) = length H \<and>
         (\<forall>k<m. fold (\<lambda>k H. H[k := hermite_row k xs H]) [2..<m] H ! k = map (hermite_function k) xs) \<and>
         (\<forall>k\<ge>m. fold (\<lambda>k H. H[k := hermite_row k xs H]) [2..<m] H ! k = H ! k)"
  using assms(1,2)
proof (induction m rule: nat_induct_at_least)
  case base
  have "k < 2 \<Longrightarrow> H ! k = map (hermite_function k) xs" for k
    using assms(3,4) by (cases k) (auto simp: less_Suc_eq numeral_2_eq_2)
  then show ?case by simp
next
  case (Suc m)
  let ?F = "fold (\<lambda>k H. H[k := hermite_row k xs H]) [2..<m] H"
  from Suc have IH: "length ?F = length H" "\<forall>k<m. ?F ! k = map (hermite_function k) xs"
    "\<forall>k\<ge>m. ?F ! k = H ! k"
    by simp_all
  obtain j where j: "m = Suc (Suc j)" using Suc.hyps
    by (metis One_nat_def Suc_1 Suc_le_D Suc_le_mono)
  have row: "hermite_row m xs ?F = map (hermite_function m) xs"
    unfolding j using IH(2) j by (intro hermite_row_eq) simp_all
  have eq: "fold (\<lambda>k H. H[k := hermite_row k xs H]) [2..<Suc m] H = ?F[m := hermite_row m xs ?F]"
    using Suc.hyps by simp
  have m: "m < length ?F" using Suc.prems IH(1) by simp
  show ?case unfolding eq
    using IH row m by (auto simp: nth_list_update less_Suc_eq)
qed

lemma gl_hermite_recursion_rows:
  assumes "2 \<le> order"
  shows "\<exists>H. gl_hermite_recursion order xs = Inr H \<and> length H = nat (2 * order) \<and>
          (\<forall>k < nat (2 * order). H ! k = map (hermite_function k) xs)"
proof -
  let ?n = "nat (2 * order)"
  let ?H0 = "replicate ?n (replicate (length xs) (0::real))"
  let ?H1 = "?H0[0 := hermite_row0 xs]"
  let ?H2 = "?H1[1 := hermite_row1 xs ?H1]"
  have n: "4 \<le> ?n" using assms by simp
  have h0: "?H1 ! 0 = map (hermite_function 0) xs" using n by (simp add: hermite_row0_eq)
  have r1: "hermite_row1 xs ?H1 = map (hermite_function 1) xs"
    using hermite_row1_eq [OF h0] by simp
  have a: "?H2 ! 0 = map (hermite_function 0) xs" using n h0 by simp
  have b: "?H2 ! 1 = map (hermite_function 1) xs" using n r1 by simp
  have l: "?n \<le> length ?H2" "2 \<le> ?n" using n by simp_all
  from hermite_fold [OF l(2) l(1) a b]
  have "length (fold (\<lambda>k H. H[k := hermite_row k xs H]) [2..<?n] ?H2) = ?n"
    "\<forall>k<?n. fold (\<lambda>k H. H[k := hermite_row k xs H]) [2..<?n] ?H2 ! k = map (hermite_function k) xs"
    by simp_all
  moreover have "gl_hermite_recursion order xs = Inr (fold (\<lambda>k H. H[k := hermite_row k xs H]) [2..<?n] ?H2)"
    using assms by (simp add: gl_hermite_recursion_def Let_def)
  ultimately show ?thesis by blast
qed

text \<open>
  For an order of at least 2 the constructor computes the weights by the formula of the
  spec, from nodes that are non-negative reals.
\<close>

lemma GaussLaguerreQR_weights_order_ge2:
  assumes R: "2 \<le> order" and la: "la_roots order a = Inr (nodes, raw)"
    and real_nodes: "\<And>z. z \<in> set nodes \<Longrightarrow> Im z = 0 \<and> 0 \<le> Re z"
  shows "\<exists>r. GaussLaguerreQR_init la_roots order a opts = Inr r \<and>
           length (gl_weights r) = length nodes \<and>
           (\<forall>i < length nodes. gl_weights r ! i =
              fdiv (sqrt (2 * real_of_int order - 1)
                      / (sqrt 2 * ((real_of_int order)\<^sup>2 - real_of_int order / 2))
                    * sqrt (Re (nodes ! i)))
                   (hermite_function (nat (2 * order - 2)) (sqrt (Re (nodes ! i)))
                      * hermite_function (nat (2 * order - 1)) (sqrt (Re (nodes ! i)))))"
proof -
  define xs where "xs = map (\<lambda>z. Re (csqrt z)) nodes"
  obtain H where H: "gl_hermite_recursion order xs = Inr H"
    "\<forall>k < nat (2 * order). H ! k = map (hermite_function k) xs"
    using gl_hermite_recursion_rows [OF R] by blast
  let ?w = "map (\<lambda>i. gl_weight order (nodes ! i) (H ! nat (2 * order - 2) ! i)
                      (H ! nat (2 * order - 1) ! i)) [0..<length nodes]"
  let ?r = "\<lparr>gl_dimension = 1, gl_order = order, gl_a = a, gl_options = opts,
             gl_number_nodes = length nodes,
             gl_nodes = map (\<lambda>z. complex_of_real (Re z)) nodes, gl_weights = ?w\<rparr>"
  have init: "GaussLaguerreQR_init la_roots order a opts = Inr ?r"
    using R H(1) unfolding xs_def GaussLaguerreQR_init_def la
    by (simp del: csqrt.simps)
  have k1: "nat (2 * order - 2) < nat (2 * order)" and k2: "nat (2 * order - 1) < nat (2 * order)"
    using R by simp_all
  have w: "?w ! i =
              fdiv (sqrt (2 * real_of_int order - 1)
                      / (sqrt 2 * ((real_of_int order)\<^sup>2 - real_of_int order / 2))
                    * sqrt (Re (nodes ! i)))
                   (hermite_function (nat (2 * order - 2)) (sqrt (Re (nodes ! i)))
                      * hermite_function (nat (2 * order - 1)) (sqrt (Re (nodes ! i))))"
    if i: "i < length nodes" for i
  proof -
    have z: "Im (nodes ! i) = 0" "0 \<le> Re (nodes ! i)" using real_nodes [of "nodes ! i"] i by simp_all
    then have cs: "csqrt (nodes ! i) = complex_of_real (sqrt (Re (nodes ! i)))" by simp
    have x: "xs ! i = sqrt (Re (nodes ! i))" using i cs unfolding xs_def by (simp del: csqrt.simps)
    have h1: "H ! nat (2 * order - 2) ! i = hermite_function (nat (2 * order - 2)) (sqrt (Re (nodes ! i)))"
      using H(2) k1 i x by (simp add: xs_def del: csqrt.simps hermite_function.simps)
    have h2: "H ! nat (2 * order - 1) ! i = hermite_function (nat (2 * order - 1)) (sqrt (Re (nodes ! i)))"
      using H(2) k2 i x by (simp add: xs_def del: csqrt.simps hermite_function.simps)
    have "?w ! i = gl_weight order (nodes ! i) (H ! nat (2 * order - 2) ! i) (H ! nat (2 * order - 1) ! i)"
      using i by simp
    also have "\<dots> = fdiv (sqrt (2 * real_of_int order - 1)
                      / (sqrt 2 * ((real_of_int order)\<^sup>2 - real_of_int order / 2))
                    * sqrt (Re (nodes ! i)))
                   (hermite_function (nat (2 * order - 2)) (sqrt (Re (nodes ! i)))
                      * hermite_function (nat (2 * order - 1)) (sqrt (Re (nodes ! i))))"
      unfolding h1 h2 gl_weight_def fdiv_def cs
      by (simp del: hermite_function.simps of_real_mult of_real_divide
            add: of_real_mult [symmetric] of_real_divide [symmetric])
    finally show ?thesis .
  qed
  show ?thesis
    using init w by (intro exI [of _ ?r]) simp
qed

lemma gl_rec_1: "gl_hermite_recursion 1 [1] = Inr [[hermite_function 0 1], [0]]"
  by (simp add: gl_hermite_recursion_def hermite_row0_def numeral_2_eq_2)

text \<open>
  C4. The claim is that for every order \<open>R \<ge> 1\<close> the weights are computed from the
  Hermite functions with the rows filled up to \<open>2R - 1\<close>. For the order 1 (node 1, the
  root of \<open>1 - x\<close>) the guard \<^verbatim>\<open>if self._order > 1\<close> leaves row 1 of \<open>H\<close> at zero, where
  the recursion gives \<open>\<surd>2 x H[0]\<close>, which is not zero; the weight is then a division by
  zero.
\<close>

theorem GaussLaguerreQR_order1:
  "GaussLaguerreQR_init la_roots_order1 1 0 [] =
     Inr \<lparr>gl_dimension = 1, gl_order = 1, gl_a = 0, gl_options = [], gl_number_nodes = 1,
          gl_nodes = [1], gl_weights = [None]\<rparr> \<and>
   gl_hermite_recursion 1 [1] = Inr [[hermite_function 0 1], [0]] \<and>
   hermite_function 0 1 * hermite_function 1 1 \<noteq> 0"
  by (simp add: GaussLaguerreQR_init_def la_roots_order1_def gl_rec_1 gl_weight_def)

section \<open>Validation in the constructors\<close>

text \<open>
  C6, as amended. Constructing \<^verbatim>\<open>GaussHermiteQR\<close> or \<^verbatim>\<open>GaussLaguerreQR\<close> with an order
  below 1 fails with \<^verbatim>\<open>ValueError\<close>, whatever the root finder would do (it is not
  called). With an order of at least 1 a constructor raises exactly when the root finder
  raises, with the same error: the shape parameter \<open>a\<close> is passed to \<^verbatim>\<open>la_roots\<close>
  unchecked.
\<close>

theorem constructors_raise:
  "(order < 1 \<longrightarrow> GaussHermiteQR_init h_roots order opts = Inl ValueError) \<and>
   (order < 1 \<longrightarrow> GaussLaguerreQR_init la_roots order a opts = Inl ValueError) \<and>
   (1 \<le> order \<longrightarrow> (\<forall>e. GaussHermiteQR_init h_roots order opts = Inl e \<longleftrightarrow> h_roots order = Inl e)) \<and>
   (1 \<le> order \<longrightarrow> (\<forall>e. GaussLaguerreQR_init la_roots order a opts = Inl e \<longleftrightarrow> la_roots order a = Inl e))"
  by (auto simp: GaussHermiteQR_init_def GaussLaguerreQR_init_def gh_hermite_recursion_def
      gl_hermite_recursion_def Let_def split: sum.splits prod.splits)

theorem constructors_raise_witness:
  "GaussHermiteQR_init h_roots_order1 0 [] = Inl ValueError \<and>
   GaussLaguerreQR_init la_roots_order1 0 0 [] = Inl ValueError \<and>
   GaussHermiteQR_init h_roots_order1 1 [] \<noteq> Inl ValueError \<and>
   GaussLaguerreQR_init la_roots_order1 1 0 [] \<noteq> Inl ValueError"
  using constructors_raise [of 0 h_roots_order1 "[]" la_roots_order1 0]
    constructors_raise [of 1 h_roots_order1 "[]" la_roots_order1 0]
  by (simp add: h_roots_order1_def la_roots_order1_def)

text \<open>
  The claim C6 as stated fails: with a root finder that accepts \<open>a = -1\<close> the
  constructor returns a rule.
\<close>

theorem GaussLaguerreQR_accepts_a:
  "GaussLaguerreQR_init la_roots_order1 1 (- 1) [] =
     Inr \<lparr>gl_dimension = 1, gl_order = 1, gl_a = - 1, gl_options = [], gl_number_nodes = 1,
          gl_nodes = [0], gl_weights = [None]\<rparr>"
  by (simp add: GaussLaguerreQR_init_def la_roots_order1_def gl_hermite_recursion_def
      hermite_row0_def gl_weight_def numeral_2_eq_2)

section \<open>The tensor product of quadrature rules\<close>

lemma length_ndindex: "length (ndindex ns) = prod_list ns"
proof (induction ns)
  case Nil
  then show ?case by simp
next
  case (Cons n ns)
  have "length (concat (map (\<lambda>i. map ((#) i) (ndindex ns)) [0..<n])) = n * prod_list ns"
    using Cons.IH by (simp add: length_concat comp_def sum_list_triv)
  then show ?case by simp
qed

lemma ndindex_bounds:
  "mi \<in> set (ndindex ns) \<Longrightarrow> length mi = length ns \<and> (\<forall>d < length ns. mi ! d < ns ! d)"
proof (induction ns arbitrary: mi)
  case Nil
  then show ?case by simp
next
  case (Cons n ns)
  from Cons.prems obtain i mi' where mi: "mi = i # mi'" "i < n" "mi' \<in> set (ndindex ns)"
    by auto
  from Cons.IH [OF mi(3)] have IH: "length mi' = length ns" "\<forall>d < length ns. mi' ! d < ns ! d"
    by simp_all
  have "mi ! d < (n # ns) ! d" if "d < length (n # ns)" for d
    using that mi(1,2) IH(2) by (cases d) auto
  then show ?case using mi(1) IH(1) by simp
qed

lemma fmul_assoc: "fmul (fmul a b) c = fmul a (fmul b c)"
  by (cases a; cases b; cases c) (simp_all add: fmul_def)

lemma fmul_one: "fmul a (Some 1) = a"
  by (cases a) (simp_all add: fmul_def)

lemma foldl_fmul: "foldl fmul x ys = fmul x (fprod ys)"
proof (induction ys arbitrary: x)
  case Nil
  then show ?case by (simp add: fprod_def fmul_one)
next
  case (Cons y ys)
  have "foldl fmul x (y # ys) = fmul (fmul x y) (fprod ys)" using Cons.IH by simp
  also have "\<dots> = fmul x (fmul y (fprod ys))" by (rule fmul_assoc)
  finally show ?case by (simp add: fprod_def)
qed

lemma fprod_Cons: "fprod (w # ws) = fmul w (fprod ws)"
  by (simp add: fprod_def)

lemma foldl_err_mul: "foldl_err (\<lambda>x y. Inr (x * y)) (n::nat) ns = Inr (n * prod_list ns)"
  by (induction ns arbitrary: n) (simp_all add: mult.assoc)

lemma reduce_mul: "ns \<noteq> [] \<Longrightarrow> reduce (\<lambda>x y. Inr (x * y)) ns = Inr (prod_list (ns::nat list))"
  by (cases ns) (simp_all add: foldl_err_mul)

lemma foldl_err_nd_mul:
  assumes "\<And>h. h \<in> set (g # gs) \<Longrightarrow> nd_shape h = S \<and> length (nd_data h) = P"
  shows "foldl_err nd_mul g gs =
           Inr \<lparr>nd_shape = S,
                nd_data = map (\<lambda>c. foldl fmul (nd_data g ! c) (map (\<lambda>h. nd_data h ! c) gs)) [0..<P]\<rparr>"
  using assms
proof (induction gs arbitrary: g)
  case Nil
  have "nd_shape g = S" "length (nd_data g) = P" using Nil by simp_all
  then have "map (\<lambda>c. nd_data g ! c) [0..<P] = nd_data g"
    using map_nth [of "nd_data g"] by simp
  with \<open>nd_shape g = S\<close>
  have "\<lparr>nd_shape = S, nd_data = map (\<lambda>c. nd_data g ! c) [0..<P]\<rparr> = g"
    by (cases g) simp
  then show ?case by simp
next
  case (Cons h gs)
  have g: "nd_shape g = S" "length (nd_data g) = P" using Cons.prems [of g] by simp_all
  have h: "nd_shape h = S" "length (nd_data h) = P" using Cons.prems [of h] by simp_all
  let ?z = "\<lparr>nd_shape = S, nd_data = map2 fmul (nd_data g) (nd_data h)\<rparr>"
  have mul: "nd_mul g h = Inr ?z" using g h by (simp add: nd_mul_def)
  have z: "nd_shape k = S \<and> length (nd_data k) = P" if k: "k \<in> set (?z # gs)" for k
  proof (cases "k = ?z")
    case True
    then show ?thesis using g(2) h(2) by simp
  next
    case False
    with k have "k \<in> set (g # h # gs)" by simp
    then show ?thesis by (rule Cons.prems)
  qed
  have pt: "foldl fmul (nd_data ?z ! c) (map (\<lambda>h. nd_data h ! c) gs) =
            foldl fmul (nd_data g ! c) (map (\<lambda>h. nd_data h ! c) (h # gs))"
    if "c < P" for c
    using that g(2) h(2) by simp
  have "foldl_err nd_mul g (h # gs) = foldl_err nd_mul ?z gs" using mul by simp
  also have "\<dots> = Inr \<lparr>nd_shape = S,
       nd_data = map (\<lambda>c. foldl fmul (nd_data ?z ! c) (map (\<lambda>h. nd_data h ! c) gs)) [0..<P]\<rparr>"
    using z by (rule Cons.IH)
  also have "map (\<lambda>c. foldl fmul (nd_data ?z ! c) (map (\<lambda>h. nd_data h ! c) gs)) [0..<P] =
       map (\<lambda>c. foldl fmul (nd_data g ! c) (map (\<lambda>h. nd_data h ! c) (h # gs))) [0..<P]"
    by (rule map_cong [OF refl]) (simp only: pt atLeastLessThan_iff set_upt)
  finally show ?case .
qed

lemma meshgrid_nd_map:
  "meshgrid_nd (map f rules) =
     map (\<lambda>d. \<lparr>nd_shape = map (\<lambda>r. length (f r)) rules,
                nd_data = map (\<lambda>mi. f (rules ! d) ! (mi ! d))
                              (ndindex (map (\<lambda>r. length (f r)) rules))\<rparr>)
         [0..<length rules]"
  by (simp add: meshgrid_nd_def comp_def cong: map_cong)

lemma tensor_product_result:
  assumes ne: "rules \<noteq> []" and wf: "\<And>r. r \<in> set rules \<Longrightarrow> wf_rule r"
  defines "Ns \<equiv> map get_number_nodes rules"
  shows "tensor_product rules =
           Inr (map (\<lambda>d. map (\<lambda>mi. get_nodes (rules ! d) ! (mi ! d)) (ndindex Ns)) [0..<length rules],
                map (\<lambda>c. fprod (map (\<lambda>d. get_weights (rules ! d) ! (ndindex Ns ! c ! d)) [0..<length rules]))
                    [0..<prod_list Ns])"
proof -
  let ?D = "length rules" and ?idx = "ndindex Ns" and ?P = "prod_list Ns"
  have D: "0 < ?D" using ne by simp
  have upt: "[0..<?D] = 0 # [1..<?D]" using D by (simp add: upt_rec)
  have ln: "map (\<lambda>r. length (get_nodes r)) rules = Ns"
    unfolding Ns_def using wf by (simp add: wf_rule_def)
  have lw: "map (\<lambda>r. length (get_weights r)) rules = Ns"
    unfolding Ns_def using wf by (simp add: wf_rule_def)
  let ?rows = "map (\<lambda>d. map (\<lambda>mi. get_nodes (rules ! d) ! (mi ! d)) ?idx) [0..<?D]"
  have flat: "map flatten (meshgrid_nd (map get_nodes rules)) = ?rows"
    by (simp add: meshgrid_nd_map ln flatten_def comp_def)
  have rows_ne: "?rows \<noteq> []" using D by simp
  have "list_all (\<lambda>a. length a = length (hd ?rows)) ?rows"
    by (simp add: list_all_iff upt hd_map)
  then have vs: "vstack_rows ?rows = Inr ?rows"
    using rows_ne unfolding vstack_rows_def by (simp only: if_True if_False)
  let ?G = "\<lambda>d. \<lparr>nd_shape = Ns, nd_data = map (\<lambda>mi. get_weights (rules ! d) ! (mi ! d)) ?idx\<rparr>"
  have grids: "meshgrid_nd (map get_weights rules) = ?G 0 # map ?G [1..<?D]"
    using upt by (simp add: meshgrid_nd_map lw)
  have same: "\<And>h. h \<in> set (?G 0 # map ?G [1..<?D]) \<Longrightarrow> nd_shape h = Ns \<and> length (nd_data h) = ?P"
    by (auto simp: length_ndindex)
  have "foldl_err nd_mul (?G 0) (map ?G [1..<?D]) =
      Inr \<lparr>nd_shape = Ns,
           nd_data = map (\<lambda>c. foldl fmul (nd_data (?G 0) ! c) (map (\<lambda>h. nd_data h ! c) (map ?G [1..<?D]))) [0..<?P]\<rparr>"
    using same by (rule foldl_err_nd_mul)
  then have red: "reduce nd_mul (?G 0 # map ?G [1..<?D]) =
      Inr \<lparr>nd_shape = Ns,
           nd_data = map (\<lambda>c. foldl fmul (nd_data (?G 0) ! c) (map (\<lambda>h. nd_data h ! c) (map ?G [1..<?D]))) [0..<?P]\<rparr>"
    by (simp only: reduce.simps)
  have pt: "foldl fmul (nd_data (?G 0) ! c) (map (\<lambda>h. nd_data h ! c) (map ?G [1..<?D])) =
            fprod (map (\<lambda>d. get_weights (rules ! d) ! (?idx ! c ! d)) [0..<?D])"
    if c: "c < ?P" for c
  proof -
    have c': "c < length ?idx" using c by (simp add: length_ndindex)
    have "foldl fmul (nd_data (?G 0) ! c) (map (\<lambda>h. nd_data h ! c) (map ?G [1..<?D])) =
          fprod (nd_data (?G 0) ! c # map (\<lambda>h. nd_data h ! c) (map ?G [1..<?D]))"
      by (simp only: foldl_fmul fprod_Cons)
    also have "\<dots> = fprod (map (\<lambda>d. nd_data (?G d) ! c) (0 # [1..<?D]))"
      by (simp add: comp_def)
    also have "\<dots> = fprod (map (\<lambda>d. get_weights (rules ! d) ! (?idx ! c ! d)) (0 # [1..<?D]))"
      using c' by simp
    finally show ?thesis using upt by simp
  qed
  have data: "map (\<lambda>c. foldl fmul (nd_data (?G 0) ! c) (map (\<lambda>h. nd_data h ! c) (map ?G [1..<?D]))) [0..<?P] =
      map (\<lambda>c. fprod (map (\<lambda>d. get_weights (rules ! d) ! (?idx ! c ! d)) [0..<?D])) [0..<?P]"
    by (rule map_cong [OF refl]) (simp only: pt atLeastLessThan_iff set_upt)
  show ?thesis
    unfolding tensor_product_def Let_def flat vs grids red data
    by (simp add: flatten_def)
qed

lemma wf_rule_a: "wf_rule rule_a"
  by (simp add: wf_rule_def rule_a_def)

lemma wf_rule_b: "wf_rule rule_b"
  by (simp add: wf_rule_def rule_b_def)

lemma ndindex_2_2: "ndindex [2, 2] = [[0, 0], [0, 1], [1, 0], [1, 1]]"
  by (simp add: upt_rec)

lemma TensorProductQR_example:
  "TensorProductQR_init [rule_a, rule_b] [] =
     Inr \<lparr>tp_dimension = 2, tp_qrs = [rule_a, rule_b], tp_order = None, tp_options = [],
          tp_number_nodes = 4,
          tp_nodes = [[- 1, - 1, 1, 1], [5, 6, 5, 6]],
          tp_weights = [Some 14, Some 22, Some 21, Some 33]\<rparr>"
  by (simp add: TensorProductQR_init_def tensor_product_def meshgrid_nd_def ndindex_2_2
      rule_a_def rule_b_def vstack_rows_def flatten_def nd_mul_def fmul_def upt_rec)

text \<open>
  C3. For a non-empty list of one-dimensional rules with node counts \<open>N\<^sub>1, ..., N\<^sub>D\<close>
  (each rule holding as many nodes and weights as it reports), the constructor of
  \<^verbatim>\<open>TensorProductQR\<close> returns a rule with \<open>N\<^sub>1 * ... * N\<^sub>D\<close> combined nodes and as many
  weights; column \<open>c\<close> combines the nodes of the constituents at the multi-index number
  \<open>c\<close> (in row-major order), and the weight at \<open>c\<close> is the product of the constituents'
  weights at that same multi-index.
\<close>

theorem TensorProductQR_nodes_weights:
  assumes "rules \<noteq> []" and "\<forall>r \<in> set rules. wf_rule r"
  shows "\<exists>tp. TensorProductQR_init rules opts = Inr tp \<and>
           tp_number_nodes tp = prod_list (map get_number_nodes rules) \<and>
           length (tp_nodes tp) = length rules \<and>
           (\<forall>d < length rules. length (tp_nodes tp ! d) = prod_list (map get_number_nodes rules)) \<and>
           length (tp_weights tp) = prod_list (map get_number_nodes rules) \<and>
           (\<forall>c < prod_list (map get_number_nodes rules).
               length (ndindex (map get_number_nodes rules) ! c) = length rules \<and>
               (\<forall>d < length rules.
                   ndindex (map get_number_nodes rules) ! c ! d < get_number_nodes (rules ! d) \<and>
                   tp_nodes tp ! d ! c =
                     get_nodes (rules ! d) ! (ndindex (map get_number_nodes rules) ! c ! d)) \<and>
               tp_weights tp ! c =
                 fprod (map (\<lambda>d. get_weights (rules ! d) ! (ndindex (map get_number_nodes rules) ! c ! d))
                            [0..<length rules]))"
proof -
  let ?Ns = "map get_number_nodes rules"
  let ?nodes = "map (\<lambda>d. map (\<lambda>mi. get_nodes (rules ! d) ! (mi ! d)) (ndindex ?Ns)) [0..<length rules]"
  let ?weights = "map (\<lambda>c. fprod (map (\<lambda>d. get_weights (rules ! d) ! (ndindex ?Ns ! c ! d)) [0..<length rules]))
                    [0..<prod_list ?Ns]"
  let ?tp = "\<lparr>tp_dimension = length rules, tp_qrs = rules, tp_order = None,
                    tp_options = opts, tp_number_nodes = prod_list ?Ns,
                    tp_nodes = ?nodes, tp_weights = ?weights\<rparr>"
  have tprod: "tensor_product rules = Inr (?nodes, ?weights)"
    using assms by (intro tensor_product_result) simp_all
  have "?Ns \<noteq> []" using assms(1) by simp
  then have red: "reduce (\<lambda>x y. Inr (x * y)) ?Ns = Inr (prod_list ?Ns)" by (rule reduce_mul)
  have init: "TensorProductQR_init rules opts = Inr ?tp"
    unfolding TensorProductQR_init_def red tprod by simp
  have idx: "length (ndindex ?Ns ! c) = length rules \<and>
             (\<forall>d < length rules. ndindex ?Ns ! c ! d < get_number_nodes (rules ! d))"
    if "c < prod_list ?Ns" for c
  proof -
    have "ndindex ?Ns ! c \<in> set (ndindex ?Ns)" using that by (simp add: length_ndindex)
    from ndindex_bounds [OF this] show ?thesis by simp
  qed
  have nodes: "tp_nodes ?tp ! d ! c = get_nodes (rules ! d) ! (ndindex ?Ns ! c ! d)"
    if "c < prod_list ?Ns" "d < length rules" for c d
    using that by (simp add: length_ndindex)
  have weights: "tp_weights ?tp ! c =
      fprod (map (\<lambda>d. get_weights (rules ! d) ! (ndindex ?Ns ! c ! d)) [0..<length rules])"
    if "c < prod_list ?Ns" for c
    using that by simp
  have lens: "tp_number_nodes ?tp = prod_list ?Ns" "length (tp_nodes ?tp) = length rules"
    "\<forall>d < length rules. length (tp_nodes ?tp ! d) = prod_list ?Ns"
    "length (tp_weights ?tp) = prod_list ?Ns"
    by (simp_all add: length_ndindex)
  show ?thesis
    using init lens idx nodes weights by (intro exI [of _ ?tp] conjI allI impI) blast+
qed

theorem TensorProductQR_nodes_weights_witness:
  "\<exists>tp. TensorProductQR_init [rule_a, rule_b] [] = Inr tp \<and>
         tp_number_nodes tp = 4 \<and> length (tp_nodes tp) = 2 \<and> length (tp_weights tp) = 4"
proof -
  have ne: "[rule_a, rule_b] \<noteq> []" by simp
  have wf: "\<forall>r \<in> set [rule_a, rule_b]. wf_rule r" by (simp add: wf_rule_a wf_rule_b)
  have n: "prod_list (map get_number_nodes [rule_a, rule_b]) = 4"
    by (simp add: rule_a_def rule_b_def)
  from TensorProductQR_nodes_weights [OF ne wf, of "[]"] show ?thesis
    unfolding n by auto
qed

section \<open>Reconstruction from descriptions\<close>

lemma GaussHermiteQR_init_fields:
  "GaussHermiteQR_init h order opts = Inr r \<Longrightarrow> gh_order r = order \<and> gh_options r = opts"
  by (auto simp: GaussHermiteQR_init_def Let_def split: if_splits sum.splits prod.splits)

lemma GaussLaguerreQR_init_fields:
  "GaussLaguerreQR_init la order a opts = Inr r \<Longrightarrow>
     gl_order r = order \<and> gl_a r = a \<and> gl_options r = opts"
  by (auto simp: GaussLaguerreQR_init_def Let_def split: if_splits sum.splits prod.splits)

lemma constructed_GH: "GaussHermiteQR_init h order opts = Inr r \<Longrightarrow> constructed h la (GH r)"
  using GaussHermiteQR_init_fields [of h order opts r] by simp

lemma constructed_GL: "GaussLaguerreQR_init la order a opts = Inr r \<Longrightarrow> constructed h la (GL r)"
  using GaussLaguerreQR_init_fields [of la order a opts r] by simp

lemma create_rule_description:
  "constructed h la r \<Longrightarrow> create_rule h la (get_description r) = Inr r"
  by (cases r) (simp_all add: gh_get_description_def gl_get_description_def)

lemma TensorProductQR_init_fields:
  "TensorProductQR_init rules opts = Inr tp \<Longrightarrow> tp_qrs tp = rules \<and> tp_options tp = opts"
  by (auto simp: TensorProductQR_init_def split: sum.splits prod.splits)

lemma map_err_inverse:
  "(\<And>x. x \<in> set xs \<Longrightarrow> f (g x) = Inr x) \<Longrightarrow> map_err f (map g xs) = Inr xs"
  by (induction xs) auto

lemma TensorProductQR_init_returns:
  assumes "rules \<noteq> []" and "\<And>r. r \<in> set rules \<Longrightarrow> wf_rule r"
  shows "\<exists>tp. TensorProductQR_init rules opts = Inr tp"
proof -
  have "map get_number_nodes rules \<noteq> []" using assms(1) by simp
  then have "reduce (\<lambda>x y. Inr (x * y)) (map get_number_nodes rules) =
      Inr (prod_list (map get_number_nodes rules))"
    by (rule reduce_mul)
  moreover obtain nodes weights where "tensor_product rules = Inr (nodes, weights)"
    using tensor_product_result [OF assms] by blast
  ultimately show ?thesis
    by (simp add: TensorProductQR_init_def)
qed

text \<open>
  C9. A rule reconstructed from the description of a constructed rule has the nodes and
  weights of the original: for \<^verbatim>\<open>GaussHermiteQR\<close>, for \<^verbatim>\<open>GaussLaguerreQR\<close>, and for a
  \<^verbatim>\<open>TensorProductQR\<close> over constructed rules, whose constituents are reconstructed from
  the descriptions under \<^verbatim>\<open>qr_rules\<close> and composed again. The root finders are
  functions: the same arguments give the same arrays.
\<close>

theorem description_round_trip:
  "(GaussHermiteQR_init h order opts = Inr g \<longrightarrow>
      (\<exists>g'. create_rule h la (get_description (GH g)) = Inr (GH g') \<and>
            gh_nodes g' = gh_nodes g \<and> gh_weights g' = gh_weights g)) \<and>
   (GaussLaguerreQR_init la order a opts = Inr l \<longrightarrow>
      (\<exists>l'. create_rule h la (get_description (GL l)) = Inr (GL l') \<and>
            gl_nodes l' = gl_nodes l \<and> gl_weights l' = gl_weights l)) \<and>
   ((\<forall>r \<in> set rules. constructed h la r) \<and> TensorProductQR_init rules opts = Inr tp \<longrightarrow>
      (\<exists>tp'. create_tensor_product h la (tp_get_description tp) = Inr tp' \<and>
             tp_nodes tp' = tp_nodes tp \<and> tp_weights tp' = tp_weights tp))"
proof (intro conjI impI)
  assume "GaussHermiteQR_init h order opts = Inr g"
  then have "create_rule h la (get_description (GH g)) = Inr (GH g)"
    by (intro create_rule_description constructed_GH)
  then show "\<exists>g'. create_rule h la (get_description (GH g)) = Inr (GH g') \<and>
            gh_nodes g' = gh_nodes g \<and> gh_weights g' = gh_weights g"
    by blast
next
  assume "GaussLaguerreQR_init la order a opts = Inr l"
  then have "create_rule h la (get_description (GL l)) = Inr (GL l)"
    by (intro create_rule_description constructed_GL)
  then show "\<exists>l'. create_rule h la (get_description (GL l)) = Inr (GL l') \<and>
            gl_nodes l' = gl_nodes l \<and> gl_weights l' = gl_weights l"
    by blast
next
  assume a: "(\<forall>r \<in> set rules. constructed h la r) \<and> TensorProductQR_init rules opts = Inr tp"
  then have f: "tp_qrs tp = rules" "tp_options tp = opts"
    using TensorProductQR_init_fields by blast+
  have "map_err (create_rule h la) (map get_description rules) = Inr rules"
    using a by (intro map_err_inverse) (simp add: create_rule_description)
  then have "create_tensor_product h la (tp_get_description tp) = Inr tp"
    using a f by (simp add: create_tensor_product_def tp_get_description_def)
  then show "\<exists>tp'. create_tensor_product h la (tp_get_description tp) = Inr tp' \<and>
             tp_nodes tp' = tp_nodes tp \<and> tp_weights tp' = tp_weights tp"
    by blast
qed

theorem description_round_trip_witness:
  "\<exists>g g' l l' tp tp'.
     GaussHermiteQR_init h_roots_order1 1 [] = Inr g \<and>
     create_rule h_roots_order1 la_roots_order1 (get_description (GH g)) = Inr (GH g') \<and>
     gh_nodes g' = gh_nodes g \<and> gh_weights g' = gh_weights g \<and>
     GaussLaguerreQR_init la_roots_order1 1 0 [] = Inr l \<and>
     create_rule h_roots_order1 la_roots_order1 (get_description (GL l)) = Inr (GL l') \<and>
     gl_nodes l' = gl_nodes l \<and> gl_weights l' = gl_weights l \<and>
     TensorProductQR_init [GH g, GL l] [] = Inr tp \<and>
     create_tensor_product h_roots_order1 la_roots_order1 (tp_get_description tp) = Inr tp' \<and>
     tp_nodes tp' = tp_nodes tp \<and> tp_weights tp' = tp_weights tp"
proof -
  obtain g where g: "GaussHermiteQR_init h_roots_order1 1 [] = Inr g"
    by (simp add: GaussHermiteQR_init_def h_roots_order1_def gh_hermite_recursion_def Let_def)
  obtain l where l: "GaussLaguerreQR_init la_roots_order1 1 0 [] = Inr l"
    by (simp add: GaussLaguerreQR_init_def la_roots_order1_def gl_hermite_recursion_def Let_def)
  have wf: "\<And>r. r \<in> set [GH g, GL l] \<Longrightarrow> wf_rule r"
    using g l
    by (auto simp: wf_rule_def hermite_row0_def GaussHermiteQR_init_def h_roots_order1_def gh_hermite_recursion_def
        GaussLaguerreQR_init_def la_roots_order1_def gl_hermite_recursion_def Let_def)
  have "[GH g, GL l] \<noteq> []" by simp
  from TensorProductQR_init_returns [OF this wf, of "[]"]
  obtain tp where tp: "TensorProductQR_init [GH g, GL l] [] = Inr tp" by blast
  have c: "\<forall>r \<in> set [GH g, GL l]. constructed h_roots_order1 la_roots_order1 r"
    using constructed_GH [OF g] constructed_GL [OF l] by simp
  from description_round_trip [of h_roots_order1 1 "[]" g la_roots_order1 0 l "[GH g, GL l]" tp]
    g l tp c
  show ?thesis by blast
qed

section \<open>The ground state on a grid of nodes\<close>

lemma linalg_det_1: "linalg_det [[a]] = a"
  by (simp add: del_nth_def)

lemma linalg_det_2: "linalg_det [[a, b], [c, d]] = a * d - b * c"
  by (simp add: del_nth_def upt_rec numeral_2_eq_2)

lemma linalg_inv_Q: "linalg_inv [[1, 1], [0, 1]] = Inr [[1, - 1], [0, 1]]"
  by (simp add: linalg_inv_def has_shape_def linalg_det_2 cofactor_def del_nth_def upt_rec numeral_2_eq_2)

lemma pr1_code:
  "sum_axis0 (mul_elementwise [[1], [1]] (dot (mul_elementwise [[\<i>, 0], [- \<i>, \<i>]] [[1, - 1], [0, 1]]) [[1], [1]])) = [2 * \<i>]"
  by (simp add: sum_axis0_def mul_elementwise_def dot_def upt_rec numeral_2_eq_2)

lemma pr1_spec:
  "sum_axis0 (mul_elementwise [[1], [1]] (dot (dot [[\<i>, 0], [- \<i>, \<i>]] [[1, - 1], [0, 1]]) [[1], [1]])) = [\<i>]"
  by (simp add: sum_axis0_def mul_elementwise_def dot_def upt_rec numeral_2_eq_2)


text \<open>
  In one dimension the product entry by entry and the matrix product of \<open>P\<close> and
  \<open>Q\<^sup>-\<^sup>1\<close> are the same, and \<^verbatim>\<open>_evaluate_phi0\<close> computes the amplitudes of the spec; with
  \<open>q = p = 0\<close>, \<open>Q = 1\<close>, \<open>P = \<i>\<close> and \<open>\<epsilon> = 1\<close> they are the Gaussian
  \<open>\<pi>^(-1/4) exp(-x\<^sup>2/2)\<close>.
\<close>

lemma has_shape_1_1: "has_shape (Suc 0) (Suc 0) A \<Longrightarrow> \<exists>a. A = [[a]]"
  unfolding has_shape_def
  by (cases A; simp) (metis length_0_conv length_Suc_conv)

lemma elementwise_is_dot_1:
  assumes "has_shape (Suc 0) (Suc 0) A" "has_shape (Suc 0) (Suc 0) B"
  shows "mul_elementwise A B = dot A B"
proof -
  obtain a b where "A = [[a]]" "B = [[b]]" using assms has_shape_1_1 by blast
  then show ?thesis by (simp add: mul_elementwise_def dot_def)
qed

lemma evaluate_phi0_one_dimension:
  assumes "length nodes = 1"
  shows "evaluate_phi0 self Pi nodes prefactor = phi0_of_spec self Pi nodes prefactor"
proof -
  obtain q p Q P S where Pi: "Pi = (q, p, Q, P, S)" by (cases Pi) auto
  show ?thesis
  proof (cases "linalg_inv Q")
    case (Inl e)
    then show ?thesis by (simp add: evaluate_phi0_def phi0_of_spec_def Pi Let_def)
  next
    case (Inr Qinv)
    show ?thesis
    proof (cases "has_shape (Suc 0) (Suc 0) P \<and> has_shape (Suc 0) (Suc 0) Qinv")
      case True
      then have "mul_elementwise P Qinv = dot P Qinv" by (simp add: elementwise_is_dot_1)
      then show ?thesis
        using assms Inr by (simp add: evaluate_phi0_def phi0_of_spec_def Pi Let_def)
    next
      case False
      then show ?thesis
        using assms Inr by (auto simp: evaluate_phi0_def phi0_of_spec_def Pi Let_def)
    qed
  qed
qed

lemma evaluate_phi0_gaussian:
  "evaluate_phi0 (packet2d\<lparr>dimension := 1\<rparr>) ([0], [0], [[1]], [[\<i>]], 0) [[complex_of_real x]] False =
     Inr [complex_of_real (pi powr (- (1 / 4)) * exp (- (x\<^sup>2) / 2))]"
proof -
  have "complex_of_real (- (x * x / 2)) = - (complex_of_real x * complex_of_real x / 2)" by simp
  then have e: "exp (- (complex_of_real x * complex_of_real x / 2)) = complex_of_real (exp (- (x * x / 2)))"
    using exp_of_real [of "- (x * x / 2)", where ?'a = complex] by (simp del: of_real_minus of_real_divide of_real_mult)
  have "\<i> * (complex_of_real x * (\<i> * complex_of_real x)) / 2 = - (complex_of_real x * complex_of_real x) / 2"
    by (simp add: algebra_simps)
  then show ?thesis
    unfolding evaluate_phi0_def packet2d_def
    by (simp add: Let_def has_shape_def linalg_inv_def linalg_det_1 cofactor_def del_nth_def
        sub_column_def sum_axis0_def mul_elementwise_def dot_def mul_column_def power2_eq_square e)
qed

lemma evaluate_phi0_at_input:
  "evaluate_phi0 packet2d Pi2d node11 False = Inr [complex_of_real (pi powr (- (1 / 2)) * exp (- 1))]"
proof -
  have df: "sub_column [[1], [1]] [0, 0] = [[1], [1]]" by (simp add: sub_column_def)
  have pr2: "sum_axis0 (mul_column [0, 0] [[1], [1]]) = [0]"
    by (simp add: sum_axis0_def mul_column_def)
  have e: "exp (- 1 :: complex) = complex_of_real (exp (- 1))"
    using exp_of_real [of "- 1 :: real", where ?'a = complex] by simp
  show ?thesis
    unfolding evaluate_phi0_def packet2d_def Pi2d_def node11_def
    by (simp add: Let_def has_shape_def linalg_inv_Q df pr1_code pr2 e)
qed

lemma phi0_of_spec_at_input:
  "phi0_of_spec packet2d Pi2d node11 False = Inr [complex_of_real (pi powr (- (1 / 2)) * exp (- (1 / 2)))]"
proof -
  have df: "sub_column [[1], [1]] [0, 0] = [[1], [1]]" by (simp add: sub_column_def)
  have pr2: "sum_axis0 (mul_column [0, 0] [[1], [1]]) = [0]"
    by (simp add: sum_axis0_def mul_column_def)
  have e: "exp (- (1 / 2) :: complex) = complex_of_real (exp (- (1 / 2)))"
    using exp_of_real [of "- (1 / 2) :: real", where ?'a = complex] by simp
  show ?thesis
    unfolding phi0_of_spec_def packet2d_def Pi2d_def node11_def
    by (simp add: Let_def has_shape_def linalg_inv_Q df pr1_spec pr2 e)
qed

text \<open>
  C1. The claim is that \<^verbatim>\<open>_evaluate_phi0\<close> uses the matrix product of \<open>P\<close> with the
  inverse of \<open>Q\<close> in the quadratic form. The source multiplies the two arrays with
  \<^verbatim>\<open>*\<close>, entry by entry. In two dimensions, at the parameter set \<open>Pi2d\<close> and the node
  \<open>(1, 1)\<close>, the method returns \<open>\<pi>^(-1/2) exp(-1)\<close> where the amplitude of the claim is
  \<open>\<pi>^(-1/2) exp(-1/2)\<close>.
\<close>

theorem evaluate_phi0_elementwise_product:
  "evaluate_phi0 packet2d Pi2d node11 False =
     Inr [complex_of_real (pi powr (- (1 / 2)) * exp (- 1))] \<and>
   phi0_of_spec packet2d Pi2d node11 False =
     Inr [complex_of_real (pi powr (- (1 / 2)) * exp (- (1 / 2)))] \<and>
   evaluate_phi0 packet2d Pi2d node11 False \<noteq> phi0_of_spec packet2d Pi2d node11 False"
proof -
  have "exp (- 1 :: real) \<noteq> exp (- (1 / 2))" by simp
  moreover have "pi powr (- (1 / 2)) \<noteq> 0" by simp
  ultimately have "pi powr (- (1 / 2)) * exp (- 1) \<noteq> pi powr (- (1 / 2)) * exp (- (1 / 2))"
    by simp
  then show ?thesis
    unfolding evaluate_phi0_at_input phi0_of_spec_at_input by simp
qed

end
